theory Spec2Isabelle
  imports Complex_Main
begin

section \<open>JavaScript numbers\<close>

text \<open>
  The balances and the amount of \<^verbatim>\<open>server.js\<close> are JavaScript numbers: IEEE 754
  binary64 values. A finite number is modelled by the rational it denotes, the two
  infinities and NaN are constructors of their own. The two zeros are one value here:
  the program only compares numbers and adds or subtracts them, \<^verbatim>\<open>-0 <= 0\<close> holds
  as \<^verbatim>\<open>0 <= 0\<close> does, and no sum or difference the handler computes distinguishes them.
\<close>

datatype jsnum = Fin rat | PInf | NInf | NaN

text \<open>Floor of the binary logarithm of an integer from 1 on.\<close>

function log2_floor :: "int \<Rightarrow> int" where
  "log2_floor n = (if n < 2 then 0 else 1 + log2_floor (n div 2))"
  by pat_completeness auto
termination
  by (relation "measure nat") auto

declare log2_floor.simps [simp del]

definition pow2 :: "int \<Rightarrow> rat" where
  "pow2 k = (if 0 \<le> k then 2 ^ nat k else 1 / 2 ^ nat (- k))"

text \<open>
  Floor of the binary logarithm of a positive rational; below 1 it is the negated ceiling
  of the logarithm of the inverse.
\<close>

definition ilog2 :: "rat \<Rightarrow> int" where
  "ilog2 q =
     (if 1 \<le> q then log2_floor \<lfloor>q\<rfloor> else - (1 + log2_floor (\<lceil>1 / q\<rceil> - 1)))"

definition round_half_even :: "rat \<Rightarrow> int" where
  "round_half_even x =
     (let f = \<lfloor>x\<rfloor>; d = x - of_int f
      in if d < 1 / 2 then f else if 1 / 2 < d then f + 1 else if even f then f else f + 1)"

text \<open>
  The Number value of a rational: round to nearest, ties to even, with 53 bits of
  precision and a least exponent of \<open>-1022\<close> (below it the spacing stays \<open>2^-1074\<close>).
  With \<open>e\<close> the exponent of \<open>\<bar>q\<bar>\<close> and \<open>m\<close> its rounded 53-bit significand, the
  rounded magnitude is \<open>m * 2^(e - 52)\<close>; it reaches \<open>2^1024\<close>, and the result is an
  infinity, when \<open>e\<close> is above 1023 or \<open>e\<close> is 1023 and \<open>m\<close> was rounded up to
  \<open>2^53\<close>. Every arithmetic operation of JavaScript returns the Number value of the exact
  result.
\<close>

definition round64 :: "rat \<Rightarrow> jsnum" where
  "round64 q =
     (if q = 0 then Fin 0
      else
        let a = \<bar>q\<bar>;
            e = max (ilog2 a) (- 1022);
            u = pow2 (e - 52);
            m = round_half_even (a / u)
        in if 1023 < e \<or> (e = 1023 \<and> m = 2 ^ 53) then (if 0 < q then PInf else NInf)
           else Fin (if 0 < q then of_int m * u else - (of_int m * u)))"

text \<open>\<^verbatim>\<open>a < b\<close> and \<^verbatim>\<open>a <= b\<close> on numbers: false whenever an operand is NaN.\<close>

fun js_lt :: "jsnum \<Rightarrow> jsnum \<Rightarrow> bool" where
  "js_lt (Fin x) (Fin y) = (x < y)"
| "js_lt (Fin x) PInf = True"
| "js_lt NInf (Fin y) = True"
| "js_lt NInf PInf = True"
| "js_lt _ _ = False"

fun js_le :: "jsnum \<Rightarrow> jsnum \<Rightarrow> bool" where
  "js_le (Fin x) (Fin y) = (x \<le> y)"
| "js_le (Fin x) PInf = True"
| "js_le NInf (Fin y) = True"
| "js_le NInf PInf = True"
| "js_le NInf NInf = True"
| "js_le PInf PInf = True"
| "js_le _ _ = False"

text \<open>\<^verbatim>\<open>a + b\<close> and \<^verbatim>\<open>a - b\<close> on numbers.\<close>

fun js_add :: "jsnum \<Rightarrow> jsnum \<Rightarrow> jsnum" where
  "js_add (Fin x) (Fin y) = round64 (x + y)"
| "js_add NaN _ = NaN"
| "js_add _ NaN = NaN"
| "js_add PInf NInf = NaN"
| "js_add NInf PInf = NaN"
| "js_add PInf _ = PInf"
| "js_add _ PInf = PInf"
| "js_add NInf _ = NInf"
| "js_add _ NInf = NInf"

fun js_sub :: "jsnum \<Rightarrow> jsnum \<Rightarrow> jsnum" where
  "js_sub (Fin x) (Fin y) = round64 (x - y)"
| "js_sub NaN _ = NaN"
| "js_sub _ NaN = NaN"
| "js_sub PInf PInf = NaN"
| "js_sub NInf NInf = NaN"
| "js_sub PInf _ = PInf"
| "js_sub NInf _ = NInf"
| "js_sub _ PInf = NInf"
| "js_sub _ NInf = PInf"

section \<open>Values of a request body\<close>

text \<open>
  \<^verbatim>\<open>express.json()\<close> parses the body, so \<^verbatim>\<open>amount\<close> is any JSON value, or
  \<^verbatim>\<open>undefined\<close> when the member is missing. A JSON number literal beyond the
  binary64 range (\<^verbatim>\<open>1e999\<close>) parses to \<^verbatim>\<open>Infinity\<close>; no JSON text parses to NaN.
\<close>

datatype jsval =
    JUndefined
  | JNull
  | JBool bool
  | JNum jsnum
  | JStr string
  | JArr "jsval list"
  | JObj "(string \<times> jsval) list"

fun typeof :: "jsval \<Rightarrow> string" where
  "typeof JUndefined = ''undefined''"
| "typeof JNull = ''object''"
| "typeof (JBool b) = ''boolean''"
| "typeof (JNum n) = ''number''"
| "typeof (JStr s) = ''string''"
| "typeof (JArr xs) = ''object''"
| "typeof (JObj kvs) = ''object''"

section \<open>The stores\<close>

text \<open>
  The bodies the handler sends, and with them the values it keeps in
  \<^verbatim>\<open>PROCESSED_KEYS\<close>. Each constructor stands for one object literal of the source:
  \<^item> \<open>MissingKey\<close>: \<^verbatim>\<open>{status: "ERROR", message: ...}\<close> of line 28;
  \<^item> \<open>InvalidData\<close>: \<^verbatim>\<open>{status: "ERROR", message: ...}\<close> of line 46;
  \<^item> \<open>InvalidAccount\<close>: \<^verbatim>\<open>{status: "ERROR", code: "INVALID_ACCOUNT", ...}\<close>;
  \<^item> \<open>SelfTransfer\<close>: \<^verbatim>\<open>{status: "ERROR", code: "SELF_TRANSFER", ...}\<close>;
  \<^item> \<open>InsufficientFunds\<close>: \<^verbatim>\<open>{status: "ERROR", code: "INSUFFICIENT_FUNDS", ...}\<close>;
  \<^item> \<open>Success transaction_id new_sender_balance timestamp\<close>: the \<^verbatim>\<open>responseBody\<close>
    of line 92, \<^verbatim>\<open>{status: "SUCCESS", message: ..., transaction_id, new_sender_balance,
    timestamp}\<close>;
  \<^item> \<open>Inherited name\<close>: the value of the property \<open>name\<close> that every object literal
    inherits from \<^verbatim>\<open>Object.prototype\<close>.
\<close>

datatype body =
    MissingKey
  | InvalidData
  | InvalidAccount
  | SelfTransfer
  | InsufficientFunds
  | Success string jsnum string
  | Inherited string

text \<open>The \<^verbatim>\<open>transactionRecord\<close> of line 82.\<close>

record transaction =
  transaction_id :: string
  sender_id :: string
  receiver_id :: string
  tx_amount :: jsnum
  timestamp :: string
  status :: string

text \<open>
  The three dictionaries of the module. \<^verbatim>\<open>ACCOUNTS\<close> is only read with
  \<^verbatim>\<open>hasOwnProperty\<close> and, after that check, by index, so it is the map of its own
  properties.
\<close>

record store =
  ACCOUNTS :: "string \<rightharpoonup> jsnum"
  PROCESSED_KEYS :: "string \<rightharpoonup> body"
  TRANSACTIONS :: "string \<rightharpoonup> transaction"

definition seed :: store where
  "seed =
     \<lparr>ACCOUNTS = [''ACC12345'' \<mapsto> Fin 1500, ''ACC67890'' \<mapsto> Fin 500, ''ACC99999'' \<mapsto> Fin 10000],
      PROCESSED_KEYS = Map.empty,
      TRANSACTIONS = Map.empty\<rparr>"

text \<open>
  \<^verbatim>\<open>PROCESSED_KEYS\<close> is the object literal \<^verbatim>\<open>{}\<close> and line 35 reads it with
  \<^verbatim>\<open>PROCESSED_KEYS[idempotencyKey]\<close>: a read by index finds the object's own property
  and, when there is none, the property of that name inherited from
  \<^verbatim>\<open>Object.prototype\<close>. The inherited values are functions and an object, all truthy,
  as every stored body is.
\<close>

definition object_prototype :: "string list" where
  "object_prototype =
     [''constructor'', ''__defineGetter__'', ''__defineSetter__'', ''hasOwnProperty'',
      ''__lookupGetter__'', ''__lookupSetter__'', ''isPrototypeOf'', ''propertyIsEnumerable'',
      ''toString'', ''valueOf'', ''__proto__'', ''toLocaleString'']"

definition get_processed :: "(string \<rightharpoonup> body) \<Rightarrow> string \<Rightarrow> body option" where
  "get_processed m key =
     (case m key of
        Some b \<Rightarrow> Some b
      | None \<Rightarrow> if key \<in> set object_prototype then Some (Inherited key) else None)"

text \<open>
  A read \<^verbatim>\<open>ACCOUNTS[id]\<close> used as a number: a missing property reads as
  \<^verbatim>\<open>undefined\<close>, which converts to NaN.
\<close>

definition balance_num :: "jsnum option \<Rightarrow> jsnum" where
  "balance_num v = (case v of Some b \<Rightarrow> b | None \<Rightarrow> NaN)"

section \<open>The transfer handler\<close>

text \<open>
  What a call reads from outside the module: the header and the body of the request, and
  the results of \<^verbatim>\<open>uuidv4()\<close> and \<^verbatim>\<open>new Date().toISOString()\<close>. The header is
  absent (\<open>None\<close>) or a string. The two account identifiers are strings, as the
  interface of the transfer operation declares them, or absent; bodies whose identifiers
  are JSON values of another type are not part of this model.
\<close>

record request =
  idempotency_key :: "string option"
  sender_account_id :: "string option"
  receiver_account_id :: "string option"
  amount :: jsval

record env =
  uuid :: string
  now :: string

record response =
  http_status :: nat
  json :: body

text \<open>\<^verbatim>\<open>s.split('-')[0]\<close> and \<^verbatim>\<open>s.toUpperCase()\<close> (on ASCII text, as a UUID is).\<close>

definition first_segment :: "string \<Rightarrow> string" where
  "first_segment s = takeWhile (\<lambda>c. c \<noteq> CHR ''-'') s"

definition upper_char :: "char \<Rightarrow> char" where
  "upper_char c =
     (let n = (of_char c :: nat) in if 97 \<le> n \<and> n \<le> 122 then char_of (n - 32) else c)"

definition toUpperCase :: "string \<Rightarrow> string" where
  "toUpperCase s = map upper_char s"

text \<open>
  The handler of \<^verbatim>\<open>POST /api/v1/transfers\<close> (lines 23 to 108), the transfer operation
  \<open>executeTransfer\<close>. It returns the response and the stores after the call. The case
  distinction on the three members of the body is the test of line 45: a missing or empty
  identifier is falsy, and an amount that is not a \<open>JNum\<close> has a \<open>typeof\<close> other than
  \<open>number\<close>. The balance in the response is read from \<^verbatim>\<open>ACCOUNTS\<close> after the debit and
  the credit, as line 96 does. The \<^verbatim>\<open>catch\<close> branch is not reached on these inputs:
  nothing in the \<^verbatim>\<open>try\<close> block throws once the body is an object.
\<close>

definition executeTransfer :: "store \<Rightarrow> env \<Rightarrow> request \<Rightarrow> response \<times> store" where
  "executeTransfer st ev rq =
     (case idempotency_key rq of
        None \<Rightarrow> (\<lparr>http_status = 400, json = MissingKey\<rparr>, st)
      | Some key \<Rightarrow>
          if key = [] then (\<lparr>http_status = 400, json = MissingKey\<rparr>, st)
          else
            (case get_processed (PROCESSED_KEYS st) key of
               Some b \<Rightarrow> (\<lparr>http_status = 202, json = b\<rparr>, st)
             | None \<Rightarrow>
                 (case (sender_account_id rq, receiver_account_id rq, amount rq) of
                    (Some s, Some r, JNum n) \<Rightarrow>
                      if s = [] \<or> r = [] \<or> js_le n (Fin 0)
                      then (\<lparr>http_status = 400, json = InvalidData\<rparr>, st)
                      else if ACCOUNTS st s = None \<or> ACCOUNTS st r = None
                      then (\<lparr>http_status = 400, json = InvalidAccount\<rparr>, st)
                      else if s = r
                      then (\<lparr>http_status = 400, json = SelfTransfer\<rparr>, st)
                      else if js_lt (balance_num (ACCOUNTS st s)) n
                      then (\<lparr>http_status = 400, json = InsufficientFunds\<rparr>,
                            st\<lparr>PROCESSED_KEYS := (PROCESSED_KEYS st)(key \<mapsto> InsufficientFunds)\<rparr>)
                      else
                        let transactionId = ''TRX-'' @ toUpperCase (first_segment (uuid ev));
                            debited = (ACCOUNTS st)(s \<mapsto> js_sub (balance_num (ACCOUNTS st s)) n);
                            credited = debited(r \<mapsto> js_add (balance_num (debited r)) n);
                            transactionRecord =
                              \<lparr>transaction_id = transactionId, sender_id = s, receiver_id = r,
                               tx_amount = n, timestamp = now ev, status = ''COMPLETED''\<rparr>;
                            responseBody =
                              Success transactionId (balance_num (credited s)) (now ev)
                        in (\<lparr>http_status = 201, json = responseBody\<rparr>,
                            \<lparr>ACCOUNTS = credited,
                             PROCESSED_KEYS = (PROCESSED_KEYS st)(key \<mapsto> responseBody),
                             TRANSACTIONS = (TRANSACTIONS st)(transactionId \<mapsto> transactionRecord)\<rparr>)
                  | _ \<Rightarrow> (\<lparr>http_status = 400, json = InvalidData\<rparr>, st))))"

text \<open>A sequence of calls, each with what it reads from outside, run one after the other.\<close>

fun run :: "store \<Rightarrow> (env \<times> request) list \<Rightarrow> store" where
  "run st [] = st"
| "run st (c # cs) = run (snd (executeTransfer st (fst c) (snd c))) cs"


text \<open>
  \<^verbatim>\<open>ACCOUNTS[a] + ACCOUNTS[b]\<close>: the sum of two balances as the program's own arithmetic
  computes it.
\<close>

definition pair_sum :: "store \<Rightarrow> string \<Rightarrow> string \<Rightarrow> jsnum" where
  "pair_sum st a b = js_add (balance_num (ACCOUNTS st a)) (balance_num (ACCOUNTS st b))"

section \<open>Requests used in the examples\<close>

definition transfer :: "string \<Rightarrow> string \<Rightarrow> string \<Rightarrow> jsval \<Rightarrow> request" where
  "transfer key s r a =
     \<lparr>idempotency_key = Some key, sender_account_id = Some s, receiver_account_id = Some r,
      amount = a\<rparr>"

definition reads :: "string \<Rightarrow> string \<Rightarrow> env" where
  "reads u t = \<lparr>uuid = u, now = t\<rparr>"

text \<open>The Number value of the JSON literal \<^verbatim>\<open>0.1\<close>.\<close>

definition tenth :: jsnum where
  "tenth = Fin (3602879701896397 / 36028797018963968)"

text \<open>
  Two transfers whose UUIDs differ and share their first segment; two transfers of 0.1
  between the same accounts; a retry of the first transfer's key with another payload.
\<close>

definition collision_first :: "env \<times> request" where
  "collision_first =
     (reads ''1b9d6bcd-bbfd-4b2d-9b5d-ab8dfbbd4bed'' ''2025-01-01T00:00:00.000Z'',
      transfer ''K1'' ''ACC12345'' ''ACC67890'' (JNum (Fin 200)))"

definition collision_second :: "env \<times> request" where
  "collision_second =
     (reads ''1b9d6bcd-0000-4000-8000-000000000000'' ''2025-01-01T00:00:01.000Z'',
      transfer ''K2'' ''ACC99999'' ''ACC67890'' (JNum (Fin 50)))"

definition tenth_first :: "env \<times> request" where
  "tenth_first =
     (reads ''1b9d6bcd-bbfd-4b2d-9b5d-ab8dfbbd4bed'' ''2025-01-01T00:00:00.000Z'',
      transfer ''K1'' ''ACC12345'' ''ACC67890'' (JNum tenth))"

definition tenth_second :: "env \<times> request" where
  "tenth_second =
     (reads ''7c9e6679-7425-40de-944b-e07fc1f90ae7'' ''2025-01-01T00:00:01.000Z'',
      transfer ''K2'' ''ACC12345'' ''ACC67890'' (JNum tenth))"


section \<open>Predicates on the stores\<close>

text \<open>No balance is below zero.\<close>

definition never_negative :: "store \<Rightarrow> bool" where
  "never_negative st = (\<forall>a b. ACCOUNTS st a = Some b \<longrightarrow> \<not> js_lt b (Fin 0))"

text \<open>
  The balances of the accounts \<open>ACC99999\<close> and \<open>ACC67890\<close> are \<open>z\<close> and \<open>y\<close>, and finitely
  many keys hold an outcome (so that a key not used before exists).
\<close>

definition pump_state :: "store \<Rightarrow> jsnum \<Rightarrow> jsnum \<Rightarrow> bool" where
  "pump_state st z y =
     (ACCOUNTS st ''ACC99999'' = Some z \<and> ACCOUNTS st ''ACC67890'' = Some y
      \<and> finite (dom (PROCESSED_KEYS st)))"

section \<open>The Number value of a rational\<close>

lemma pow2_powi: "pow2 k = 2 powi k"
  by (simp add: pow2_def power_int_def field_simps)

lemma pow2_pos: "0 < pow2 k"
  by (simp add: pow2_powi)

lemma pow2_add: "pow2 (a + b) = pow2 a * pow2 b"
  by (simp add: pow2_powi power_int_add)

lemma log2_floor_bounds:
  "1 \<le> n \<Longrightarrow>
   0 \<le> log2_floor n \<and> 2 ^ nat (log2_floor n) \<le> n \<and> n < 2 ^ Suc (nat (log2_floor n))"
proof (induction n rule: log2_floor.induct)
  case (1 n)
  show ?case
  proof (cases "n < 2")
    case True
    with "1.prems" have "n = 1" by simp
    then show ?thesis by (simp add: log2_floor.simps)
  next
    case False
    then have "1 \<le> n div 2" by simp
    with "1.IH" False have IH: "0 \<le> log2_floor (n div 2)"
      "2 ^ nat (log2_floor (n div 2)) \<le> n div 2"
      "n div 2 < 2 ^ Suc (nat (log2_floor (n div 2)))"
      by simp_all
    have eq: "log2_floor n = 1 + log2_floor (n div 2)"
      using False by (subst log2_floor.simps) simp
    have nat_eq: "nat (1 + log2_floor (n div 2)) = Suc (nat (log2_floor (n div 2)))"
      using IH(1) by simp
    have "2 * (n div 2) \<le> n" and "n < 2 * (n div 2) + 2"
      by simp_all
    with IH(2,3) have "2 * 2 ^ nat (log2_floor (n div 2)) \<le> n"
      and "n < 2 * (2 * 2 ^ nat (log2_floor (n div 2)))"
      by simp_all
    with IH(1) show ?thesis
      by (simp add: eq nat_eq)
  qed
qed

lemma log2_floor_unique:
  assumes "2 ^ k \<le> n" and "n < 2 ^ Suc k"
  shows "log2_floor n = int k"
proof -
  have "(1::int) \<le> 2 ^ k"
    by simp
  with assms(1) have "1 \<le> n"
    by linarith
  from log2_floor_bounds [OF this]
  have b: "0 \<le> log2_floor n" "2 ^ nat (log2_floor n) \<le> n" "n < 2 ^ Suc (nat (log2_floor n))"
    by simp_all
  have "(2::int) ^ k < 2 ^ Suc (nat (log2_floor n))"
    using assms(1) b(3) by linarith
  then have "k < Suc (nat (log2_floor n))"
    by (metis power_less_imp_less_exp one_less_numeral_iff semiring_norm(76))
  moreover have "(2::int) ^ nat (log2_floor n) < 2 ^ Suc k"
    using assms(2) b(2) by linarith
  then have "nat (log2_floor n) < Suc k"
    by (metis power_less_imp_less_exp one_less_numeral_iff semiring_norm(76))
  ultimately show ?thesis
    using b(1) by simp
qed

lemma ilog2_eq:
  assumes "pow2 e \<le> q" and "q < pow2 (e + 1)"
  shows "ilog2 q = e"
proof (cases "0 \<le> e")
  case True
  then have p: "pow2 e = of_int (2 ^ nat e)" "pow2 (e + 1) = of_int (2 ^ Suc (nat e))"
    by (simp_all add: pow2_def nat_add_distrib)
  have "(1::rat) \<le> of_int (2 ^ nat e)"
    by simp
  with assms(1) p(1) have "1 \<le> q"
    by linarith
  moreover have "2 ^ nat e \<le> \<lfloor>q\<rfloor>"
    using assms(1) p(1) by (simp add: le_floor_iff)
  moreover have "\<lfloor>q\<rfloor> < 2 ^ Suc (nat e)"
    using assms(2) p(2) by (simp only: floor_less_iff)
  ultimately show ?thesis
    using True by (simp add: ilog2_def log2_floor_unique)
next
  case False
  define k where "k = nat (- e) - 1"
  from False have e: "e = - int (Suc k)"
    by (simp add: k_def)
  have "nat (int k + 1) = Suc k"
    by simp
  then have p: "pow2 e = 1 / of_int (2 ^ Suc k)" "pow2 (e + 1) = 1 / of_int (2 ^ k)"
    by (simp_all add: e pow2_def)
  have "0 < q"
    using assms(1) pow2_pos [of e] by linarith
  have "pow2 (e + 1) \<le> 1"
    by (simp add: p)
  with assms(2) have "\<not> 1 \<le> q"
    by linarith
  have "1 / of_int (2 ^ Suc k) \<le> q"
    using assms(1) p(1) by simp
  then have "1 / q \<le> of_int (2 ^ Suc k)"
    using \<open>0 < q\<close> by (simp add: field_simps)
  then have up: "\<lceil>1 / q\<rceil> \<le> 2 ^ Suc k"
    by (simp only: ceiling_le_iff)
  have "q < 1 / of_int (2 ^ k)"
    using assms(2) p(2) by simp
  then have "of_int (2 ^ k) < 1 / q"
    using \<open>0 < q\<close> by (simp add: field_simps)
  then have "2 ^ k < \<lceil>1 / q\<rceil>"
    by (simp only: less_ceiling_iff)
  with up have "log2_floor (\<lceil>1 / q\<rceil> - 1) = int k"
    by (intro log2_floor_unique) simp_all
  with \<open>\<not> 1 \<le> q\<close> show ?thesis
    by (simp add: ilog2_def e)
qed

lemma round64_normal:
  assumes "pow2 e \<le> q" and "q < pow2 (e + 1)" and "- 1022 \<le> e"
  shows "round64 q =
    (if 1023 < e \<or> (e = 1023 \<and> round_half_even (q / pow2 (e - 52)) = 2 ^ 53) then PInf
     else Fin (of_int (round_half_even (q / pow2 (e - 52))) * pow2 (e - 52)))"
proof -
  have "0 < q"
    using assms(1) pow2_pos [of e] by linarith
  moreover have "ilog2 q = e"
    using assms(1,2) by (rule ilog2_eq)
  ultimately show ?thesis
    using assms(3) by (auto simp: round64_def Let_def max_def)
qed

lemma round_half_even_int: "round_half_even (of_int m) = m"
  by (simp add: round_half_even_def)

lemma round_half_even_up: "round_half_even (of_int m + 3 / 4) = m + 1"
proof -
  have "\<lfloor>(of_int m :: rat) + 3 / 4\<rfloor> = m"
    by (simp add: floor_unique)
  then show ?thesis
    by (simp add: round_half_even_def Let_def)
qed

lemma round_half_even_back: "round_half_even (of_int m - 1 / 4) = m"
proof -
  have "\<lfloor>(of_int m :: rat) - 1 / 4\<rfloor> = m - 1"
    by (simp add: floor_unique)
  then show ?thesis
    by (simp add: round_half_even_def Let_def)
qed

lemma round_half_even_tie: "odd m \<Longrightarrow> round_half_even (of_int m + 1 / 2) = m + 1"
proof -
  assume "odd m"
  have "\<lfloor>(of_int m :: rat) + 1 / 2\<rfloor> = m"
    by (simp add: floor_unique)
  with \<open>odd m\<close> show ?thesis
    by (simp add: round_half_even_def Let_def)
qed

lemma pow2_52: "pow2 e = 2 ^ 52 * pow2 (e - 52)" and pow2_53: "pow2 (e + 1) = 2 ^ 53 * pow2 (e - 52)"
proof -
  have "e = 52 + (e - 52)"
    by simp
  then have a: "pow2 e = pow2 (52 + (e - 52))"
    by (rule arg_cong)
  have "e + 1 = 53 + (e - 52)"
    by simp
  then have "pow2 (e + 1) = pow2 (53 + (e - 52))"
    by (rule arg_cong)
  with a show "pow2 e = 2 ^ 52 * pow2 (e - 52)" and "pow2 (e + 1) = 2 ^ 53 * pow2 (e - 52)"
    by (simp_all only: pow2_add) (simp_all add: pow2_def)
qed

lemma pow2_quarter: "pow2 (e - 52) = 4 * pow2 (e - 54)"
proof -
  have "pow2 (e - 52) = pow2 (2 + (e - 54))"
    by simp
  then show ?thesis
    by (simp only: pow2_add) (simp add: pow2_def)
qed

lemma pow2_half: "pow2 (e - 53) = 2 * pow2 (e - 54)"
proof -
  have "pow2 (e - 53) = pow2 (1 + (e - 54))"
    by simp
  then show ?thesis
    by (simp only: pow2_add) (simp add: pow2_def)
qed

lemma of_int_ge_pow: "2 ^ n \<le> m \<Longrightarrow> (2::rat) ^ n \<le> of_int m"
  by (metis of_int_le_iff of_int_numeral of_int_power)

lemma of_int_lt_pow: "m < 2 ^ n \<Longrightarrow> (of_int m :: rat) < 2 ^ n"
  by (metis of_int_less_iff of_int_numeral of_int_power)

lemma round64_scaled:
  assumes "2 ^ 52 \<le> x" and "x < 2 ^ 53" and "- 1022 \<le> e"
  shows "round64 (x * pow2 (e - 52)) =
    (if 1023 < e \<or> (e = 1023 \<and> round_half_even x = 2 ^ 53) then PInf
     else Fin (of_int (round_half_even x) * pow2 (e - 52)))"
proof -
  have pos: "0 < pow2 (e - 52)"
    by (rule pow2_pos)
  have "pow2 e \<le> x * pow2 (e - 52)"
    using assms(1) pos by (simp only: pow2_52 [of e] mult_le_cancel_right_pos)
  moreover have "x * pow2 (e - 52) < pow2 (e + 1)"
    using assms(2) pos by (simp only: pow2_53 [of e] mult_less_cancel_right_pos)
  moreover have "x * pow2 (e - 52) / pow2 (e - 52) = x"
    using pos by simp
  ultimately show ?thesis
    using assms(3) round64_normal [of e "x * pow2 (e - 52)"] by simp
qed

lemma round64_exact:
  assumes "2 ^ 52 \<le> m" and "m < 2 ^ 53" and "- 1022 \<le> e" and "e \<le> 1023"
  shows "round64 (of_int m * pow2 (e - 52)) = Fin (of_int m * pow2 (e - 52))"
proof -
  have "(2::rat) ^ 52 \<le> of_int m" and "(of_int m :: rat) < 2 ^ 53"
    using assms(1,2) by (simp_all add: of_int_ge_pow of_int_lt_pow del: power_numeral)
  then have "round64 (of_int m * pow2 (e - 52)) =
    (if 1023 < e \<or> (e = 1023 \<and> round_half_even (of_int m) = 2 ^ 53) then PInf
     else Fin (of_int (round_half_even (of_int m)) * pow2 (e - 52)))"
    using assms(3) by (rule round64_scaled)
  with assms(2,4) show ?thesis
    by (simp add: round_half_even_int)
qed

lemma round64_up:
  assumes "2 ^ 52 \<le> m" and "m < 2 ^ 53" and "- 1022 \<le> e" and "e \<le> 1023"
  shows "round64 (of_int m * pow2 (e - 52) + 3 * pow2 (e - 54)) =
    (if e = 1023 \<and> m + 1 = 2 ^ 53 then PInf else Fin (of_int (m + 1) * pow2 (e - 52)))"
proof -
  have "m + 1 \<le> 2 ^ 53"
    using assms(2) by simp
  then have "(of_int (m + 1) :: rat) \<le> 2 ^ 53"
    by (metis of_int_le_iff of_int_numeral of_int_power)
  moreover have "(2::rat) ^ 52 \<le> of_int m"
    using assms(1) by (rule of_int_ge_pow)
  ultimately have "(2::rat) ^ 52 \<le> of_int m + 3 / 4" and "(of_int m :: rat) + 3 / 4 < 2 ^ 53"
    by simp_all
  then have "round64 ((of_int m + 3 / 4) * pow2 (e - 52)) =
    (if 1023 < e \<or> (e = 1023 \<and> round_half_even (of_int m + 3 / 4) = 2 ^ 53) then PInf
     else Fin (of_int (round_half_even (of_int m + 3 / 4)) * pow2 (e - 52)))"
    using assms(3) by (rule round64_scaled)
  moreover have "(of_int m + 3 / 4) * pow2 (e - 52) = of_int m * pow2 (e - 52) + 3 * pow2 (e - 54)"
    by (simp add: pow2_quarter [of e] algebra_simps)
  ultimately show ?thesis
    using assms(4) by (simp add: round_half_even_up)
qed

lemma round64_scaled_fin:
  assumes "2 ^ 52 \<le> x" and "x < 2 ^ 53" and "- 1022 \<le> e" and "e \<le> 1023"
    and "e < 1023 \<or> round_half_even x \<noteq> 2 ^ 53"
  shows "round64 (x * pow2 (e - 52)) = Fin (of_int (round_half_even x) * pow2 (e - 52))"
proof -
  have "round64 (x * pow2 (e - 52)) =
    (if 1023 < e \<or> (e = 1023 \<and> round_half_even x = 2 ^ 53) then PInf
     else Fin (of_int (round_half_even x) * pow2 (e - 52)))"
    using assms(1,2,3) by (rule round64_scaled)
  moreover have "\<not> (1023 < e \<or> (e = 1023 \<and> round_half_even x = 2 ^ 53))"
    using assms(4,5) by auto
  ultimately show ?thesis
    by (simp only: if_False)
qed

lemma round64_back:
  assumes "2 ^ 52 \<le> m" and "m < 2 ^ 53" and "- 1021 \<le> e" and "e \<le> 1023"
  shows "round64 (of_int m * pow2 (e - 52) - pow2 (e - 54)) = Fin (of_int m * pow2 (e - 52))"
proof (cases "m = 2 ^ 52")
  case False
  define x :: rat where "x = of_int m - 1 / 4"
  from False assms(1) have "2 ^ 52 \<le> m - 1"
    by simp
  then have "(2::rat) ^ 52 \<le> of_int (m - 1)"
    by (rule of_int_ge_pow)
  moreover have "(of_int m :: rat) < 2 ^ 53"
    using assms(2) by (rule of_int_lt_pow)
  ultimately have "(2::rat) ^ 52 \<le> x" and "x < 2 ^ 53"
    by (simp_all add: x_def)
  moreover have "- 1022 \<le> e"
    using assms(3) by simp
  moreover have rx: "round_half_even x = m"
    unfolding x_def by (rule round_half_even_back)
  then have "e < 1023 \<or> round_half_even x \<noteq> 2 ^ 53"
    using assms(2) by simp
  ultimately have "round64 (x * pow2 (e - 52)) = Fin (of_int (round_half_even x) * pow2 (e - 52))"
    using assms(4) by (intro round64_scaled_fin)
  moreover have "x * pow2 (e - 52) = of_int m * pow2 (e - 52) - pow2 (e - 54)"
    by (simp add: x_def pow2_quarter [of e] algebra_simps)
  ultimately show ?thesis
    by (simp only: rx)
next
  case True
  define x :: rat where "x = of_int (2 ^ 53 - 1) + 1 / 2"
  have "(2::rat) ^ 52 \<le> x" and "x < 2 ^ 53"
    by (simp_all add: x_def)
  moreover have "- 1022 \<le> e - 1" and "e - 1 \<le> 1023" and "e - 1 < 1023 \<or> round_half_even x \<noteq> 2 ^ 53"
    using assms(3,4) by simp_all
  ultimately have "round64 (x * pow2 (e - 1 - 52)) =
      Fin (of_int (round_half_even x) * pow2 (e - 1 - 52))"
    by (rule round64_scaled_fin)
  moreover have "round_half_even x = 2 ^ 53"
    unfolding x_def using round_half_even_tie [of "2 ^ 53 - 1"] by simp
  moreover have "e - 1 - 52 = e - 53"
    by simp
  ultimately have r: "round64 (x * pow2 (e - 53)) = Fin (of_int (2 ^ 53) * pow2 (e - 53))"
    by (simp only:)
  have "x * pow2 (e - 53) = of_int m * pow2 (e - 52) - pow2 (e - 54)"
    by (simp add: x_def True pow2_quarter [of e] pow2_half [of e] algebra_simps)
  moreover have "of_int (2 ^ 53) * pow2 (e - 53) = of_int m * pow2 (e - 52)"
    by (simp add: True pow2_quarter [of e] pow2_half [of e])
  ultimately show ?thesis
    using r by (simp only:)
qed

lemma round64_amounts:
  assumes "- 968 \<le> e" and "e \<le> 1023"
  shows "round64 (pow2 (e - 54)) = Fin (pow2 (e - 54))"
    and "round64 (pow2 (e - 54) + pow2 (e - 54)) = Fin (2 * pow2 (e - 54))"
    and "round64 (2 * pow2 (e - 54) + pow2 (e - 54)) = Fin (3 * pow2 (e - 54))"
proof -
  have a: "round64 (of_int (2 ^ 52) * pow2 (e - 54 - 52)) =
      Fin (of_int (2 ^ 52) * pow2 (e - 54 - 52))"
    using assms by (intro round64_exact) simp_all
  have "of_int (2 ^ 52) * pow2 (e - 54 - 52) = pow2 (e - 54)"
    using pow2_52 [of "e - 54"] by simp
  with a show "round64 (pow2 (e - 54)) = Fin (pow2 (e - 54))"
    by (simp only:)
  have b: "round64 (of_int (2 ^ 52) * pow2 (e - 53 - 52)) =
      Fin (of_int (2 ^ 52) * pow2 (e - 53 - 52))"
    using assms by (intro round64_exact) simp_all
  have "of_int (2 ^ 52) * pow2 (e - 53 - 52) = 2 * pow2 (e - 54)"
    using pow2_52 [of "e - 53"] pow2_half [of e] by simp
  moreover have "pow2 (e - 54) + pow2 (e - 54) = 2 * pow2 (e - 54)"
    by simp
  ultimately show "round64 (pow2 (e - 54) + pow2 (e - 54)) = Fin (2 * pow2 (e - 54))"
    using b by (simp only:)
  have c: "round64 (of_int (3 * 2 ^ 51) * pow2 (e - 53 - 52)) =
      Fin (of_int (3 * 2 ^ 51) * pow2 (e - 53 - 52))"
    using assms by (intro round64_exact) simp_all
  have "of_int (3 * 2 ^ 51) * pow2 (e - 53 - 52) = 3 * pow2 (e - 54)"
    using pow2_52 [of "e - 53"] pow2_half [of e] by simp
  moreover have "2 * pow2 (e - 54) + pow2 (e - 54) = 3 * pow2 (e - 54)"
    by simp
  ultimately show "round64 (2 * pow2 (e - 54) + pow2 (e - 54)) = Fin (3 * pow2 (e - 54))"
    using c by (simp only:)
qed

lemma round_half_even_nonneg: "0 \<le> x \<Longrightarrow> 0 \<le> round_half_even x"
  by (simp add: round_half_even_def Let_def)

lemma round64_nonneg: "0 \<le> q \<Longrightarrow> \<not> js_lt (round64 q) (Fin 0)"
proof (cases "q = 0")
  case True
  then show ?thesis by (simp add: round64_def)
next
  case False
  assume "0 \<le> q"
  with False have "0 < q" by simp
  let ?u = "pow2 (max (ilog2 q) (- 1022) - 52)"
  have "0 < ?u"
    by (rule pow2_pos)
  with \<open>0 < q\<close> have "0 \<le> round_half_even (q / ?u)"
    by (intro round_half_even_nonneg) simp
  with \<open>0 < ?u\<close> have "(0::rat) \<le> of_int (round_half_even (q / ?u)) * ?u"
    by simp
  with \<open>0 < q\<close> show ?thesis
    by (simp add: round64_def Let_def)
qed

section \<open>The ways out of the handler\<close>

lemma get_processed_own: "m key = Some b \<Longrightarrow> get_processed m key = Some b"
  by (simp add: get_processed_def)


lemma get_processed_fresh:
  "m key = None \<Longrightarrow> key \<notin> set object_prototype \<Longrightarrow> get_processed m key = None"
  by (simp add: get_processed_def)

lemma round64_zero: "round64 0 = Fin 0"
  by (simp add: round64_def)

text \<open>Line 27: no key, or an empty one.\<close>

lemma executeTransfer_missing_key:
  "idempotency_key rq = None \<or> idempotency_key rq = Some [] \<Longrightarrow>
   executeTransfer st ev rq = (\<lparr>http_status = 400, json = MissingKey\<rparr>, st)"
  by (auto simp: executeTransfer_def)

text \<open>Line 35: the key reads as a truthy value.\<close>

lemma executeTransfer_replay:
  "idempotency_key rq = Some key \<Longrightarrow> key \<noteq> [] \<Longrightarrow>
   get_processed (PROCESSED_KEYS st) key = Some b \<Longrightarrow>
   executeTransfer st ev rq = (\<lparr>http_status = 202, json = b\<rparr>, st)"
  by (simp add: executeTransfer_def)

text \<open>
  Line 35 again: a key that names a property inherited from \<^verbatim>\<open>Object.prototype\<close> reads as
  that property, so the call is answered as a repeat although nothing is stored under the
  key.
\<close>

lemma executeTransfer_inherited_key:
  assumes "idempotency_key rq = Some key" and "key \<in> set object_prototype"
    and "PROCESSED_KEYS st key = None"
  shows "executeTransfer st ev rq = (\<lparr>http_status = 202, json = Inherited key\<rparr>, st)"
proof -
  from assms(2) have "key \<noteq> []"
    by (auto simp: object_prototype_def)
  moreover from assms(2,3) have "get_processed (PROCESSED_KEYS st) key = Some (Inherited key)"
    by (simp add: get_processed_def)
  ultimately show ?thesis
    using assms(1) by (simp add: executeTransfer_replay)
qed

text \<open>Line 45.\<close>

lemma executeTransfer_invalid_data:
  "idempotency_key rq = Some key \<Longrightarrow> key \<noteq> [] \<Longrightarrow>
   get_processed (PROCESSED_KEYS st) key = None \<Longrightarrow>
   sender_account_id rq = None \<or> sender_account_id rq = Some []
     \<or> receiver_account_id rq = None \<or> receiver_account_id rq = Some []
     \<or> typeof (amount rq) \<noteq> ''number'' \<or> (\<exists>n. amount rq = JNum n \<and> js_le n (Fin 0)) \<Longrightarrow>
   executeTransfer st ev rq = (\<lparr>http_status = 400, json = InvalidData\<rparr>, st)"
  by (cases "amount rq"; cases "sender_account_id rq"; cases "receiver_account_id rq")
     (auto simp: executeTransfer_def)

text \<open>Line 54.\<close>

lemma executeTransfer_invalid_account:
  "idempotency_key rq = Some key \<Longrightarrow> key \<noteq> [] \<Longrightarrow>
   get_processed (PROCESSED_KEYS st) key = None \<Longrightarrow>
   sender_account_id rq = Some s \<Longrightarrow> receiver_account_id rq = Some r \<Longrightarrow>
   s \<noteq> [] \<Longrightarrow> r \<noteq> [] \<Longrightarrow> amount rq = JNum n \<Longrightarrow> \<not> js_le n (Fin 0) \<Longrightarrow>
   ACCOUNTS st s = None \<or> ACCOUNTS st r = None \<Longrightarrow>
   executeTransfer st ev rq = (\<lparr>http_status = 400, json = InvalidAccount\<rparr>, st)"
  by (auto simp: executeTransfer_def)

text \<open>Line 58.\<close>

lemma executeTransfer_self_transfer:
  "idempotency_key rq = Some key \<Longrightarrow> key \<noteq> [] \<Longrightarrow>
   get_processed (PROCESSED_KEYS st) key = None \<Longrightarrow>
   sender_account_id rq = Some s \<Longrightarrow> receiver_account_id rq = Some s \<Longrightarrow>
   s \<noteq> [] \<Longrightarrow> amount rq = JNum n \<Longrightarrow> \<not> js_le n (Fin 0) \<Longrightarrow>
   ACCOUNTS st s = Some bs \<Longrightarrow>
   executeTransfer st ev rq = (\<lparr>http_status = 400, json = SelfTransfer\<rparr>, st)"
  by (simp add: executeTransfer_def)

text \<open>Line 64.\<close>

lemma executeTransfer_insufficient:
  "idempotency_key rq = Some key \<Longrightarrow> key \<noteq> [] \<Longrightarrow>
   get_processed (PROCESSED_KEYS st) key = None \<Longrightarrow>
   sender_account_id rq = Some s \<Longrightarrow> receiver_account_id rq = Some r \<Longrightarrow>
   s \<noteq> [] \<Longrightarrow> r \<noteq> [] \<Longrightarrow> amount rq = JNum n \<Longrightarrow> \<not> js_le n (Fin 0) \<Longrightarrow>
   ACCOUNTS st s = Some bs \<Longrightarrow> ACCOUNTS st r = Some br \<Longrightarrow> s \<noteq> r \<Longrightarrow>
   js_lt bs n \<Longrightarrow>
   executeTransfer st ev rq =
     (\<lparr>http_status = 400, json = InsufficientFunds\<rparr>,
      st\<lparr>PROCESSED_KEYS := (PROCESSED_KEYS st)(key \<mapsto> InsufficientFunds)\<rparr>)"
  by (simp add: executeTransfer_def balance_num_def)

text \<open>Lines 73 to 102.\<close>

lemma executeTransfer_commit:
  "idempotency_key rq = Some key \<Longrightarrow> key \<noteq> [] \<Longrightarrow>
   get_processed (PROCESSED_KEYS st) key = None \<Longrightarrow>
   sender_account_id rq = Some s \<Longrightarrow> receiver_account_id rq = Some r \<Longrightarrow>
   s \<noteq> [] \<Longrightarrow> r \<noteq> [] \<Longrightarrow> amount rq = JNum n \<Longrightarrow> \<not> js_le n (Fin 0) \<Longrightarrow>
   ACCOUNTS st s = Some bs \<Longrightarrow> ACCOUNTS st r = Some br \<Longrightarrow> s \<noteq> r \<Longrightarrow>
   \<not> js_lt bs n \<Longrightarrow>
   executeTransfer st ev rq =
     (\<lparr>http_status = 201,
       json = Success (''TRX-'' @ toUpperCase (first_segment (uuid ev))) (js_sub bs n) (now ev)\<rparr>,
      \<lparr>ACCOUNTS = (ACCOUNTS st)(s \<mapsto> js_sub bs n, r \<mapsto> js_add br n),
       PROCESSED_KEYS = (PROCESSED_KEYS st)
         (key \<mapsto> Success (''TRX-'' @ toUpperCase (first_segment (uuid ev))) (js_sub bs n) (now ev)),
       TRANSACTIONS = (TRANSACTIONS st)
         (''TRX-'' @ toUpperCase (first_segment (uuid ev)) \<mapsto>
            \<lparr>transaction_id = ''TRX-'' @ toUpperCase (first_segment (uuid ev)),
             sender_id = s, receiver_id = r, tx_amount = n, timestamp = now ev,
             status = ''COMPLETED''\<rparr>)\<rparr>)"
  by (simp add: executeTransfer_def balance_num_def Let_def)

subsection \<open>Values used in the examples\<close>

lemma upper_1b9d6bcd_a:
  "toUpperCase (first_segment ''1b9d6bcd-bbfd-4b2d-9b5d-ab8dfbbd4bed'') = ''1B9D6BCD''"
  by code_simp

lemma upper_1b9d6bcd_b:
  "toUpperCase (first_segment ''1b9d6bcd-0000-4000-8000-000000000000'') = ''1B9D6BCD''"
  by code_simp

lemma upper_7c9e6679:
  "toUpperCase (first_segment ''7c9e6679-7425-40de-944b-e07fc1f90ae7'') = ''7C9E6679''"
  by code_simp

lemma round64_1300: "round64 1300 = Fin 1300"
  by code_simp

lemma round64_700: "round64 700 = Fin 700"
  by code_simp

lemma round64_9950: "round64 9950 = Fin 9950"
  by code_simp

lemma round64_750: "round64 750 = Fin 750"
  by code_simp

lemma collision_first_run:
  "executeTransfer seed (fst collision_first) (snd collision_first) =
     (\<lparr>http_status = 201, json = Success ''TRX-1B9D6BCD'' (Fin 1300) ''2025-01-01T00:00:00.000Z''\<rparr>,
      \<lparr>ACCOUNTS = (ACCOUNTS seed)(''ACC12345'' \<mapsto> Fin 1300, ''ACC67890'' \<mapsto> Fin 700),
       PROCESSED_KEYS =
         [''K1'' \<mapsto> Success ''TRX-1B9D6BCD'' (Fin 1300) ''2025-01-01T00:00:00.000Z''],
       TRANSACTIONS =
         [''TRX-1B9D6BCD'' \<mapsto>
            \<lparr>transaction_id = ''TRX-1B9D6BCD'', sender_id = ''ACC12345'',
             receiver_id = ''ACC67890'', tx_amount = Fin 200,
             timestamp = ''2025-01-01T00:00:00.000Z'', status = ''COMPLETED''\<rparr>]\<rparr>)"
  using executeTransfer_commit [where st = seed and key = "''K1''" and s = "''ACC12345''"
      and r = "''ACC67890''" and n = "Fin 200" and bs = "Fin 1500" and br = "Fin 500"
      and rq = "snd collision_first" and ev = "fst collision_first"]
  by (simp add: collision_first_def seed_def transfer_def reads_def get_processed_def
      object_prototype_def upper_1b9d6bcd_a round64_1300 round64_700)

lemma tenth_positive: "\<not> js_le tenth (Fin 0)"
  by (simp add: tenth_def)

lemma tenth_sub_1500: "js_sub (Fin 1500) tenth = Fin (3298314981002445 / 2199023255552)"
  by code_simp

lemma tenth_add_500: "js_add (Fin 500) tenth = Fin (4398926120406221 / 8796093022208)"
  by code_simp

lemma tenth_sub_again:
  "js_sub (Fin (3298314981002445 / 2199023255552)) tenth = Fin (1649047539338445 / 1099511627776)"
  by code_simp

lemma tenth_add_again:
  "js_add (Fin (4398926120406221 / 8796093022208)) tenth = Fin (2199902864854221 / 4398046511104)"
  by code_simp

lemma sum_after_first:
  "js_add (Fin (3298314981002445 / 2199023255552)) (Fin (4398926120406221 / 8796093022208)) =
   Fin 2000"
  by code_simp

lemma sum_after_second:
  "js_add (Fin (1649047539338445 / 1099511627776)) (Fin (2199902864854221 / 4398046511104)) =
   Fin (8796093022208001 / 4398046511104)"
  by code_simp

lemma tenth_first_run:
  "executeTransfer seed (fst tenth_first) (snd tenth_first) =
     (\<lparr>http_status = 201,
       json = Success ''TRX-1B9D6BCD'' (Fin (3298314981002445 / 2199023255552))
                ''2025-01-01T00:00:00.000Z''\<rparr>,
      \<lparr>ACCOUNTS = (ACCOUNTS seed)
         (''ACC12345'' \<mapsto> Fin (3298314981002445 / 2199023255552),
          ''ACC67890'' \<mapsto> Fin (4398926120406221 / 8796093022208)),
       PROCESSED_KEYS =
         [''K1'' \<mapsto> Success ''TRX-1B9D6BCD'' (Fin (3298314981002445 / 2199023255552))
                      ''2025-01-01T00:00:00.000Z''],
       TRANSACTIONS =
         [''TRX-1B9D6BCD'' \<mapsto>
            \<lparr>transaction_id = ''TRX-1B9D6BCD'', sender_id = ''ACC12345'',
             receiver_id = ''ACC67890'', tx_amount = tenth,
             timestamp = ''2025-01-01T00:00:00.000Z'', status = ''COMPLETED''\<rparr>]\<rparr>)"
proof -
  have "\<not> js_lt (Fin 1500) tenth"
    by (simp add: tenth_def)
  with tenth_positive show ?thesis
    using executeTransfer_commit [where st = seed and key = "''K1''" and s = "''ACC12345''"
      and r = "''ACC67890''" and n = tenth and bs = "Fin 1500" and br = "Fin 500"
      and rq = "snd tenth_first" and ev = "fst tenth_first"]
    by (simp add: tenth_first_def seed_def transfer_def reads_def get_processed_def
      object_prototype_def upper_1b9d6bcd_a tenth_sub_1500 tenth_add_500)
qed

section \<open>Replay of a stored outcome\<close>

text \<open>
  Claim C6. A call whose idempotency key has a stored record is answered with that record,
  unchanged, whatever the rest of the request holds; accounts, stored keys and transaction
  log stay as they were.
\<close>

theorem replay_returns_stored_outcome:
  assumes "idempotency_key rq = Some key" and "key \<noteq> []"
    and "PROCESSED_KEYS st key = Some b"
  shows "executeTransfer st ev rq = (\<lparr>http_status = 202, json = b\<rparr>, st)"
  using assms by (simp add: executeTransfer_replay get_processed_own)

text \<open>
  The scenario of the specification: the key \<open>K2\<close> holds the insufficient-funds error and
  the retry asks for an amount the sender could pay.
\<close>

theorem replay_returns_stored_outcome_witness:
  "executeTransfer (seed\<lparr>PROCESSED_KEYS := [''K2'' \<mapsto> InsufficientFunds]\<rparr>)
     (reads ''7c9e6679-7425-40de-944b-e07fc1f90ae7'' ''2025-01-01T00:00:01.000Z'')
     (transfer ''K2'' ''ACC12345'' ''ACC67890'' (JNum (Fin 100))) =
   (\<lparr>http_status = 202, json = InsufficientFunds\<rparr>,
    seed\<lparr>PROCESSED_KEYS := [''K2'' \<mapsto> InsufficientFunds]\<rparr>)"
  using replay_returns_stored_outcome
    [where rq = "transfer ''K2'' ''ACC12345'' ''ACC67890'' (JNum (Fin 100))"
       and key = "''K2''" and b = InsufficientFunds
       and st = "seed\<lparr>PROCESSED_KEYS := [''K2'' \<mapsto> InsufficientFunds]\<rparr>"]
  by (simp add: transfer_def)

section \<open>Keys that name an inherited property\<close>

text \<open>
  A key is unused when no outcome is stored under it: \<open>PROCESSED_KEYS st key = None\<close>. The
  read of line 35 finds nothing under an unused key only when the key is, besides, none
  of the twelve names of \<open>object_prototype\<close>. Under one of those names it finds the inherited
  property, and the call is answered 202 as a repeat on the first use of the key
  (\<open>executeTransfer_inherited_key\<close>): no field of the body is looked at and nothing is
  debited, credited or stored. On every other unused key the read finds nothing
  (\<open>get_processed_fresh\<close>) and the request goes through the checks
  (\<open>executeTransfer_invalid_data\<close> to \<open>executeTransfer_commit\<close>).
\<close>

text \<open>
  Claim C7 on the code. From the seed state the key \<open>constructor\<close> has never been used and
  the request, 200 from the account with 1500 to the account with 500, would pass every
  check; the claim says the transfer is made and answered with a success outcome. The
  handler answers 202 with the inherited property and leaves the accounts, the stored keys
  and the transaction log as they were.
\<close>

theorem inherited_key_blocks_transfer:
  "PROCESSED_KEYS seed ''constructor'' = None
   \<and> executeTransfer seed
       (reads ''1b9d6bcd-bbfd-4b2d-9b5d-ab8dfbbd4bed'' ''2025-01-01T00:00:00.000Z'')
       (transfer ''constructor'' ''ACC12345'' ''ACC67890'' (JNum (Fin 200))) =
     (\<lparr>http_status = 202, json = Inherited ''constructor''\<rparr>, seed)"
  using executeTransfer_inherited_key [where st = seed and key = "''constructor''"
      and rq = "transfer ''constructor'' ''ACC12345'' ''ACC67890'' (JNum (Fin 200))"
      and ev = "reads ''1b9d6bcd-bbfd-4b2d-9b5d-ab8dfbbd4bed'' ''2025-01-01T00:00:00.000Z''"]
  by (simp add: seed_def transfer_def object_prototype_def)

text \<open>
  Claim C10 on the code. From the seed state the key \<open>hasOwnProperty\<close> has never been used
  and the request asks for 500, the whole balance of the sender; the claim says the transfer
  succeeds and leaves the sender with zero. The handler answers 202 with the inherited
  property and the sender keeps 500.
\<close>

theorem inherited_key_blocks_whole_balance:
  "PROCESSED_KEYS seed ''hasOwnProperty'' = None
   \<and> ACCOUNTS seed ''ACC67890'' = Some (Fin 500)
   \<and> executeTransfer seed
       (reads ''7c9e6679-7425-40de-944b-e07fc1f90ae7'' ''2025-01-01T00:00:01.000Z'')
       (transfer ''hasOwnProperty'' ''ACC67890'' ''ACC12345'' (JNum (Fin 500))) =
     (\<lparr>http_status = 202, json = Inherited ''hasOwnProperty''\<rparr>, seed)"
  using executeTransfer_inherited_key [where st = seed and key = "''hasOwnProperty''"
      and rq = "transfer ''hasOwnProperty'' ''ACC67890'' ''ACC12345'' (JNum (Fin 500))"
      and ev = "reads ''7c9e6679-7425-40de-944b-e07fc1f90ae7'' ''2025-01-01T00:00:01.000Z''"]
  by (simp add: seed_def transfer_def object_prototype_def)

text \<open>
  On a key the read of line 35 finds nothing under, the funds check is strict: an amount
  equal to the sender's finite balance is transferred. The whole result: the sender is
  left with zero, the receiver is credited, the transaction is stored and the success body
  is stored under the key.
\<close>

lemma whole_balance_commit:
  assumes "idempotency_key rq = Some key" and "key \<noteq> []"
    and "get_processed (PROCESSED_KEYS st) key = None"
    and "sender_account_id rq = Some s" and "receiver_account_id rq = Some r"
    and "s \<noteq> []" and "r \<noteq> []" and "s \<noteq> r"
    and "ACCOUNTS st s = Some (Fin b)" and "ACCOUNTS st r = Some br"
    and "amount rq = JNum (Fin b)" and "0 < b"
  shows "executeTransfer st ev rq =
      (\<lparr>http_status = 201,
        json = Success (''TRX-'' @ toUpperCase (first_segment (uuid ev))) (Fin 0) (now ev)\<rparr>,
       \<lparr>ACCOUNTS = (ACCOUNTS st)(s \<mapsto> Fin 0, r \<mapsto> js_add br (Fin b)),
        PROCESSED_KEYS = (PROCESSED_KEYS st)
          (key \<mapsto> Success (''TRX-'' @ toUpperCase (first_segment (uuid ev))) (Fin 0) (now ev)),
        TRANSACTIONS = (TRANSACTIONS st)
          (''TRX-'' @ toUpperCase (first_segment (uuid ev)) \<mapsto>
             \<lparr>transaction_id = ''TRX-'' @ toUpperCase (first_segment (uuid ev)),
              sender_id = s, receiver_id = r, tx_amount = Fin b, timestamp = now ev,
              status = ''COMPLETED''\<rparr>)\<rparr>)"
proof -
  have "\<not> js_le (Fin b) (Fin 0)" and "\<not> js_lt (Fin b) (Fin b)"
    using \<open>0 < b\<close> by simp_all
  with assms have "executeTransfer st ev rq =
      (\<lparr>http_status = 201,
        json = Success (''TRX-'' @ toUpperCase (first_segment (uuid ev)))
                 (js_sub (Fin b) (Fin b)) (now ev)\<rparr>,
       \<lparr>ACCOUNTS = (ACCOUNTS st)(s \<mapsto> js_sub (Fin b) (Fin b), r \<mapsto> js_add br (Fin b)),
        PROCESSED_KEYS = (PROCESSED_KEYS st)
          (key \<mapsto> Success (''TRX-'' @ toUpperCase (first_segment (uuid ev)))
                     (js_sub (Fin b) (Fin b)) (now ev)),
        TRANSACTIONS = (TRANSACTIONS st)
          (''TRX-'' @ toUpperCase (first_segment (uuid ev)) \<mapsto>
             \<lparr>transaction_id = ''TRX-'' @ toUpperCase (first_segment (uuid ev)),
              sender_id = s, receiver_id = r, tx_amount = Fin b, timestamp = now ev,
              status = ''COMPLETED''\<rparr>)\<rparr>)"
    by (intro executeTransfer_commit)
  moreover have "js_sub (Fin b) (Fin b) = Fin 0"
    by (simp add: round64_zero)
  ultimately show ?thesis
    by (simp only:)
qed

section \<open>Rejected requests\<close>

text \<open>
  Claim C8 on the code. From the seed state the key \<open>toString\<close> has never been used and the
  request asks for a transfer of 10 from the account \<open>ACC12345\<close> to itself; the claim says
  the answer is the self-transfer error. The handler answers 202 with the inherited
  property.
\<close>

theorem inherited_key_hides_self_transfer:
  "PROCESSED_KEYS seed ''toString'' = None
   \<and> executeTransfer seed
       (reads ''7c9e6679-7425-40de-944b-e07fc1f90ae7'' ''2025-01-01T00:00:01.000Z'')
       (transfer ''toString'' ''ACC12345'' ''ACC12345'' (JNum (Fin 10))) =
     (\<lparr>http_status = 202, json = Inherited ''toString''\<rparr>, seed)"
  using executeTransfer_inherited_key [where st = seed and key = "''toString''"
      and rq = "transfer ''toString'' ''ACC12345'' ''ACC12345'' (JNum (Fin 10))"
      and ev = "reads ''7c9e6679-7425-40de-944b-e07fc1f90ae7'' ''2025-01-01T00:00:01.000Z''"]
  by (simp add: seed_def transfer_def object_prototype_def)

text \<open>
  Claim C2, as amended. The key is not empty, no outcome is stored under it and it is none
  of the twelve names of \<open>object_prototype\<close>. Then an amount that is not a number, or that is
  a number at most zero (zero, a negative number, minus infinity), is answered 400 with the
  invalid-data error and the accounts, the stored keys and the transaction log are
  unchanged. Line 45 tests \<^verbatim>\<open>typeof amount !== 'number' || amount <= 0\<close> and nothing else
  about the amount.
\<close>

theorem non_positive_amount_rejected:
  assumes "idempotency_key rq = Some key" and "key \<noteq> []"
    and "PROCESSED_KEYS st key = None" and "key \<notin> set object_prototype"
    and "typeof (amount rq) \<noteq> ''number'' \<or> (\<exists>n. amount rq = JNum n \<and> js_le n (Fin 0))"
  shows "executeTransfer st ev rq = (\<lparr>http_status = 400, json = InvalidData\<rparr>, st)"
proof -
  from assms(3,4) have "get_processed (PROCESSED_KEYS st) key = None"
    by (rule get_processed_fresh)
  with assms(1,2,5) show ?thesis
    by (intro executeTransfer_invalid_data) auto
qed

theorem non_positive_amount_rejected_witness:
  "executeTransfer seed
     (reads ''7c9e6679-7425-40de-944b-e07fc1f90ae7'' ''2025-01-01T00:00:01.000Z'')
     (transfer ''K5'' ''ACC12345'' ''ACC67890'' (JNum (Fin (- 5)))) =
     (\<lparr>http_status = 400, json = InvalidData\<rparr>, seed)
   \<and> executeTransfer seed
     (reads ''7c9e6679-7425-40de-944b-e07fc1f90ae7'' ''2025-01-01T00:00:01.000Z'')
     (transfer ''K5'' ''ACC12345'' ''ACC67890'' (JStr ''200'')) =
     (\<lparr>http_status = 400, json = InvalidData\<rparr>, seed)"
  using non_positive_amount_rejected [where st = seed and key = "''K5''"
      and rq = "transfer ''K5'' ''ACC12345'' ''ACC67890'' (JNum (Fin (- 5)))"
      and ev = "reads ''7c9e6679-7425-40de-944b-e07fc1f90ae7'' ''2025-01-01T00:00:01.000Z''"]
    non_positive_amount_rejected [where st = seed and key = "''K5''"
      and rq = "transfer ''K5'' ''ACC12345'' ''ACC67890'' (JStr ''200'')"
      and ev = "reads ''7c9e6679-7425-40de-944b-e07fc1f90ae7'' ''2025-01-01T00:00:01.000Z''"]
  by (simp add: seed_def transfer_def object_prototype_def)

text \<open>
  Claim C2 as stated fails for the amount \<^verbatim>\<open>Infinity\<close>, which a body such as
  \<^verbatim>\<open>{"amount": 1e999, ...}\<close> delivers: it is a number and not at most zero, so the request
  passes line 45; every finite balance is below it, so the answer is the insufficient-funds
  error, and that error is stored under the key. It fails as well under the unused key
  \<open>valueOf\<close>, where the amount \<open>-5\<close> is answered 202 with the inherited property.
\<close>

theorem infinite_amount_counterexample:
  "executeTransfer seed
     (reads ''7c9e6679-7425-40de-944b-e07fc1f90ae7'' ''2025-01-01T00:00:01.000Z'')
     (transfer ''K6'' ''ACC12345'' ''ACC67890'' (JNum PInf)) =
     (\<lparr>http_status = 400, json = InsufficientFunds\<rparr>,
      seed\<lparr>PROCESSED_KEYS := [''K6'' \<mapsto> InsufficientFunds]\<rparr>)
   \<and> PROCESSED_KEYS seed ''valueOf'' = None
   \<and> executeTransfer seed
     (reads ''7c9e6679-7425-40de-944b-e07fc1f90ae7'' ''2025-01-01T00:00:01.000Z'')
     (transfer ''valueOf'' ''ACC12345'' ''ACC67890'' (JNum (Fin (- 5)))) =
     (\<lparr>http_status = 202, json = Inherited ''valueOf''\<rparr>, seed)"
  using executeTransfer_insufficient [where st = seed and key = "''K6''" and s = "''ACC12345''"
      and r = "''ACC67890''" and n = PInf and bs = "Fin 1500" and br = "Fin 500"
      and rq = "transfer ''K6'' ''ACC12345'' ''ACC67890'' (JNum PInf)"
      and ev = "reads ''7c9e6679-7425-40de-944b-e07fc1f90ae7'' ''2025-01-01T00:00:01.000Z''"]
    executeTransfer_inherited_key [where st = seed and key = "''valueOf''"
      and rq = "transfer ''valueOf'' ''ACC12345'' ''ACC67890'' (JNum (Fin (- 5)))"
      and ev = "reads ''7c9e6679-7425-40de-944b-e07fc1f90ae7'' ''2025-01-01T00:00:01.000Z''"]
  by (simp add: seed_def transfer_def get_processed_def object_prototype_def)

text \<open>
  NaN is a number and is not at most zero either, so line 45 would let it through as well,
  and since no balance is below NaN the transfer would be made; no JSON body delivers NaN.
\<close>

lemma nan_amount_commits:
  assumes "idempotency_key rq = Some key" and "key \<noteq> []"
    and "get_processed (PROCESSED_KEYS st) key = None"
    and "sender_account_id rq = Some s" and "receiver_account_id rq = Some r"
    and "s \<noteq> []" and "r \<noteq> []" and "s \<noteq> r"
    and "ACCOUNTS st s = Some bs" and "ACCOUNTS st r = Some br"
    and "amount rq = JNum NaN"
  shows "http_status (fst (executeTransfer st ev rq)) = 201"
    and "ACCOUNTS (snd (executeTransfer st ev rq)) s = Some NaN"
    and "ACCOUNTS (snd (executeTransfer st ev rq)) r = Some NaN"
proof -
  have "\<not> js_le NaN (Fin 0)"
    by simp
  moreover have "\<not> js_lt bs NaN"
    by (cases bs) simp_all
  ultimately have "\<not> js_le NaN (Fin 0)" and "\<not> js_lt bs NaN"
    by simp_all
  with assms have "executeTransfer st ev rq =
      (\<lparr>http_status = 201,
        json = Success (''TRX-'' @ toUpperCase (first_segment (uuid ev))) (js_sub bs NaN) (now ev)\<rparr>,
       \<lparr>ACCOUNTS = (ACCOUNTS st)(s \<mapsto> js_sub bs NaN, r \<mapsto> js_add br NaN),
        PROCESSED_KEYS = (PROCESSED_KEYS st)
          (key \<mapsto> Success (''TRX-'' @ toUpperCase (first_segment (uuid ev))) (js_sub bs NaN) (now ev)),
        TRANSACTIONS = (TRANSACTIONS st)
          (''TRX-'' @ toUpperCase (first_segment (uuid ev)) \<mapsto>
             \<lparr>transaction_id = ''TRX-'' @ toUpperCase (first_segment (uuid ev)),
              sender_id = s, receiver_id = r, tx_amount = NaN, timestamp = now ev,
              status = ''COMPLETED''\<rparr>)\<rparr>)"
    by (intro executeTransfer_commit)
  moreover have "js_sub bs NaN = NaN"
    by (cases bs) simp_all
  moreover have "js_add br NaN = NaN"
    by (cases br) simp_all
  ultimately show "http_status (fst (executeTransfer st ev rq)) = 201"
    and "ACCOUNTS (snd (executeTransfer st ev rq)) s = Some NaN"
    and "ACCOUNTS (snd (executeTransfer st ev rq)) r = Some NaN"
    using \<open>s \<noteq> r\<close> by simp_all
qed

text \<open>
  Claim C1, as amended. The key is not empty, no outcome is stored under it and it is none
  of the twelve names of \<open>object_prototype\<close>. Of the three business errors only the
  insufficient-funds error is stored: with valid fields and two distinct existing accounts,
  a request for more than the sender's balance is answered 400 with that error, the error
  is stored under the key and nothing else changes; every later call with the key,
  whatever its payload, is answered 202 with the stored error and changes nothing.
\<close>

theorem insufficient_funds_recorded_and_replayed:
  assumes "idempotency_key rq = Some key" and "key \<noteq> []"
    and "PROCESSED_KEYS st key = None" and "key \<notin> set object_prototype"
    and "sender_account_id rq = Some s" and "receiver_account_id rq = Some r"
    and "s \<noteq> []" and "r \<noteq> []"
    and "amount rq = JNum n" and "\<not> js_le n (Fin 0)"
    and "ACCOUNTS st s = Some bs" and "ACCOUNTS st r = Some br"
    and "s \<noteq> r"
    and "js_lt bs n"
    and "idempotency_key rq' = Some key"
  shows "executeTransfer st ev rq =
           (\<lparr>http_status = 400, json = InsufficientFunds\<rparr>,
            st\<lparr>PROCESSED_KEYS := (PROCESSED_KEYS st)(key \<mapsto> InsufficientFunds)\<rparr>)
         \<and> executeTransfer
             (st\<lparr>PROCESSED_KEYS := (PROCESSED_KEYS st)(key \<mapsto> InsufficientFunds)\<rparr>) ev' rq' =
           (\<lparr>http_status = 202, json = InsufficientFunds\<rparr>,
            st\<lparr>PROCESSED_KEYS := (PROCESSED_KEYS st)(key \<mapsto> InsufficientFunds)\<rparr>)"
proof -
  from assms(3,4) have "get_processed (PROCESSED_KEYS st) key = None"
    by (rule get_processed_fresh)
  with assms have first: "executeTransfer st ev rq =
      (\<lparr>http_status = 400, json = InsufficientFunds\<rparr>,
       st\<lparr>PROCESSED_KEYS := (PROCESSED_KEYS st)(key \<mapsto> InsufficientFunds)\<rparr>)"
    by (intro executeTransfer_insufficient)
  have "get_processed
      (PROCESSED_KEYS (st\<lparr>PROCESSED_KEYS := (PROCESSED_KEYS st)(key \<mapsto> InsufficientFunds)\<rparr>)) key
      = Some InsufficientFunds"
    by (simp add: get_processed_own)
  with assms(2,15) have "executeTransfer
      (st\<lparr>PROCESSED_KEYS := (PROCESSED_KEYS st)(key \<mapsto> InsufficientFunds)\<rparr>) ev' rq' =
      (\<lparr>http_status = 202, json = InsufficientFunds\<rparr>,
       st\<lparr>PROCESSED_KEYS := (PROCESSED_KEYS st)(key \<mapsto> InsufficientFunds)\<rparr>)"
    by (intro executeTransfer_replay)
  with first show ?thesis by simp
qed

text \<open>
  The scenario of the specification: 5000 asked of the account with 1500 under the key
  \<open>K2\<close>, then the retry with the amount 100.
\<close>

theorem insufficient_funds_recorded_and_replayed_witness:
  "executeTransfer seed
     (reads ''7c9e6679-7425-40de-944b-e07fc1f90ae7'' ''2025-01-01T00:00:01.000Z'')
     (transfer ''K2'' ''ACC12345'' ''ACC67890'' (JNum (Fin 5000))) =
     (\<lparr>http_status = 400, json = InsufficientFunds\<rparr>,
      seed\<lparr>PROCESSED_KEYS := [''K2'' \<mapsto> InsufficientFunds]\<rparr>)
   \<and> executeTransfer (seed\<lparr>PROCESSED_KEYS := [''K2'' \<mapsto> InsufficientFunds]\<rparr>)
     (reads ''1b9d6bcd-bbfd-4b2d-9b5d-ab8dfbbd4bed'' ''2025-01-01T00:00:02.000Z'')
     (transfer ''K2'' ''ACC12345'' ''ACC67890'' (JNum (Fin 100))) =
     (\<lparr>http_status = 202, json = InsufficientFunds\<rparr>,
      seed\<lparr>PROCESSED_KEYS := [''K2'' \<mapsto> InsufficientFunds]\<rparr>)"
  using insufficient_funds_recorded_and_replayed [where st = seed and key = "''K2''"
      and s = "''ACC12345''" and r = "''ACC67890''" and n = "Fin 5000"
      and bs = "Fin 1500" and br = "Fin 500"
      and rq = "transfer ''K2'' ''ACC12345'' ''ACC67890'' (JNum (Fin 5000))"
      and ev = "reads ''7c9e6679-7425-40de-944b-e07fc1f90ae7'' ''2025-01-01T00:00:01.000Z''"
      and rq' = "transfer ''K2'' ''ACC12345'' ''ACC67890'' (JNum (Fin 100))"
      and ev' = "reads ''1b9d6bcd-bbfd-4b2d-9b5d-ab8dfbbd4bed'' ''2025-01-01T00:00:02.000Z''"]
  by (simp add: seed_def transfer_def object_prototype_def)

text \<open>
  Claim C1 as stated fails for the other two business errors: a transfer from an account
  to itself and a transfer to an account that does not exist are answered with their
  errors and leave nothing under the key. It fails as well under the unused key
  \<open>__proto__\<close>, where a request for more than the sender's balance is answered 202 with the
  inherited property and nothing is stored.
\<close>

theorem unrecorded_business_errors_counterexample:
  "executeTransfer seed
     (reads ''7c9e6679-7425-40de-944b-e07fc1f90ae7'' ''2025-01-01T00:00:01.000Z'')
     (transfer ''K3'' ''ACC12345'' ''ACC12345'' (JNum (Fin 10))) =
     (\<lparr>http_status = 400, json = SelfTransfer\<rparr>, seed)
   \<and> executeTransfer seed
     (reads ''7c9e6679-7425-40de-944b-e07fc1f90ae7'' ''2025-01-01T00:00:01.000Z'')
     (transfer ''K7'' ''ACC12345'' ''ACC00000'' (JNum (Fin 10))) =
     (\<lparr>http_status = 400, json = InvalidAccount\<rparr>, seed)
   \<and> PROCESSED_KEYS seed ''K3'' = None \<and> PROCESSED_KEYS seed ''K7'' = None
   \<and> PROCESSED_KEYS seed ''__proto__'' = None
   \<and> executeTransfer seed
     (reads ''7c9e6679-7425-40de-944b-e07fc1f90ae7'' ''2025-01-01T00:00:01.000Z'')
     (transfer ''__proto__'' ''ACC12345'' ''ACC67890'' (JNum (Fin 5000))) =
     (\<lparr>http_status = 202, json = Inherited ''__proto__''\<rparr>, seed)"
  using executeTransfer_self_transfer [where st = seed and key = "''K3''"
      and s = "''ACC12345''" and n = "Fin 10" and bs = "Fin 1500"
      and rq = "transfer ''K3'' ''ACC12345'' ''ACC12345'' (JNum (Fin 10))"
      and ev = "reads ''7c9e6679-7425-40de-944b-e07fc1f90ae7'' ''2025-01-01T00:00:01.000Z''"]
    executeTransfer_invalid_account [where st = seed and key = "''K7''"
      and s = "''ACC12345''" and r = "''ACC00000''" and n = "Fin 10"
      and rq = "transfer ''K7'' ''ACC12345'' ''ACC00000'' (JNum (Fin 10))"
      and ev = "reads ''7c9e6679-7425-40de-944b-e07fc1f90ae7'' ''2025-01-01T00:00:01.000Z''"]
    executeTransfer_inherited_key [where st = seed and key = "''__proto__''"
      and rq = "transfer ''__proto__'' ''ACC12345'' ''ACC67890'' (JNum (Fin 5000))"
      and ev = "reads ''7c9e6679-7425-40de-944b-e07fc1f90ae7'' ''2025-01-01T00:00:01.000Z''"]
  by (simp add: seed_def transfer_def get_processed_def object_prototype_def)

section \<open>At most one commit for a key\<close>




text \<open>Only a call answered 201 changes the accounts.\<close>

lemma not_201_accounts_unchanged:
  "http_status (fst (executeTransfer st ev rq)) \<noteq> 201 \<Longrightarrow>
   ACCOUNTS (snd (executeTransfer st ev rq)) = ACCOUNTS st"
  by (auto simp: executeTransfer_def Let_def split: option.splits jsval.splits if_splits)




section \<open>Transaction identifiers\<close>

text \<open>
  Claim C9 on the code. Line 73 keeps the first of the five segments of the UUID, eight
  hexadecimal digits. Two successful transfers whose UUIDs differ after that segment get
  the same transaction id: both responses carry it, and the record of the second transfer
  replaces the record of the first in \<^verbatim>\<open>TRANSACTIONS\<close>, which then holds one record for
  two transfers.
\<close>

theorem transaction_ids_collide:
  "uuid (fst collision_first) \<noteq> uuid (fst collision_second)
   \<and> fst (executeTransfer seed (fst collision_first) (snd collision_first)) =
       \<lparr>http_status = 201,
        json = Success ''TRX-1B9D6BCD'' (Fin 1300) ''2025-01-01T00:00:00.000Z''\<rparr>
   \<and> fst (executeTransfer (run seed [collision_first])
            (fst collision_second) (snd collision_second)) =
       \<lparr>http_status = 201,
        json = Success ''TRX-1B9D6BCD'' (Fin 9950) ''2025-01-01T00:00:01.000Z''\<rparr>
   \<and> dom (TRANSACTIONS (run seed [collision_first, collision_second])) = {''TRX-1B9D6BCD''}
   \<and> TRANSACTIONS (run seed [collision_first, collision_second]) ''TRX-1B9D6BCD'' =
       Some \<lparr>transaction_id = ''TRX-1B9D6BCD'', sender_id = ''ACC99999'',
             receiver_id = ''ACC67890'', tx_amount = Fin 50,
             timestamp = ''2025-01-01T00:00:01.000Z'', status = ''COMPLETED''\<rparr>"
proof -
  let ?st1 =
    "\<lparr>ACCOUNTS = (ACCOUNTS seed)(''ACC12345'' \<mapsto> Fin 1300, ''ACC67890'' \<mapsto> Fin 700),
      PROCESSED_KEYS =
        [''K1'' \<mapsto> Success ''TRX-1B9D6BCD'' (Fin 1300) ''2025-01-01T00:00:00.000Z''],
      TRANSACTIONS =
        [''TRX-1B9D6BCD'' \<mapsto>
           \<lparr>transaction_id = ''TRX-1B9D6BCD'', sender_id = ''ACC12345'',
            receiver_id = ''ACC67890'', tx_amount = Fin 200,
            timestamp = ''2025-01-01T00:00:00.000Z'', status = ''COMPLETED''\<rparr>]\<rparr>"
  have second: "executeTransfer ?st1 (fst collision_second) (snd collision_second) =
     (\<lparr>http_status = 201, json = Success ''TRX-1B9D6BCD'' (Fin 9950) ''2025-01-01T00:00:01.000Z''\<rparr>,
      \<lparr>ACCOUNTS = (ACCOUNTS ?st1)(''ACC99999'' \<mapsto> Fin 9950, ''ACC67890'' \<mapsto> Fin 750),
       PROCESSED_KEYS = (PROCESSED_KEYS ?st1)
         (''K2'' \<mapsto> Success ''TRX-1B9D6BCD'' (Fin 9950) ''2025-01-01T00:00:01.000Z''),
       TRANSACTIONS = (TRANSACTIONS ?st1)
         (''TRX-1B9D6BCD'' \<mapsto>
            \<lparr>transaction_id = ''TRX-1B9D6BCD'', sender_id = ''ACC99999'',
             receiver_id = ''ACC67890'', tx_amount = Fin 50,
             timestamp = ''2025-01-01T00:00:01.000Z'', status = ''COMPLETED''\<rparr>)\<rparr>)"
    using executeTransfer_commit [where st = ?st1 and key = "''K2''" and s = "''ACC99999''"
        and r = "''ACC67890''" and n = "Fin 50" and bs = "Fin 10000" and br = "Fin 700"
        and rq = "snd collision_second" and ev = "fst collision_second"]
    by (simp add: collision_second_def seed_def transfer_def reads_def
        get_processed_def object_prototype_def upper_1b9d6bcd_b round64_9950 round64_750)
  have "uuid (fst collision_first) \<noteq> uuid (fst collision_second)"
    by (simp add: collision_first_def collision_second_def reads_def)
  then show ?thesis
    by (simp add: collision_first_run second)
qed

section \<open>Conservation\<close>

text \<open>
  Claim C5 on the code. Two successful transfers of 0.1 from the account with 1500 to the
  account with 500. After the first the balances are the numbers that print as 1499.9 and
  500.1 and their sum, as JavaScript computes it, is 2000. After the second they print as
  1499.8000000000002 and 500.20000000000005 and the sum is 2000.0000000000002: the second
  transfer debits and credits different amounts.
\<close>

theorem rounding_breaks_conservation:
  "http_status (fst (executeTransfer (run seed [tenth_first])
       (fst tenth_second) (snd tenth_second))) = 201
   \<and> ACCOUNTS (run seed [tenth_first]) ''ACC12345'' = Some (Fin (3298314981002445 / 2199023255552))
   \<and> ACCOUNTS (run seed [tenth_first]) ''ACC67890'' = Some (Fin (4398926120406221 / 8796093022208))
   \<and> ACCOUNTS (run seed [tenth_first, tenth_second]) ''ACC12345'' =
       Some (Fin (1649047539338445 / 1099511627776))
   \<and> ACCOUNTS (run seed [tenth_first, tenth_second]) ''ACC67890'' =
       Some (Fin (2199902864854221 / 4398046511104))
   \<and> pair_sum (run seed [tenth_first]) ''ACC12345'' ''ACC67890'' = Fin 2000
   \<and> pair_sum (run seed [tenth_first, tenth_second]) ''ACC12345'' ''ACC67890'' =
       Fin (8796093022208001 / 4398046511104)"
proof -
  let ?st1 =
    "\<lparr>ACCOUNTS = (ACCOUNTS seed)
         (''ACC12345'' \<mapsto> Fin (3298314981002445 / 2199023255552),
          ''ACC67890'' \<mapsto> Fin (4398926120406221 / 8796093022208)),
       PROCESSED_KEYS =
         [''K1'' \<mapsto> Success ''TRX-1B9D6BCD'' (Fin (3298314981002445 / 2199023255552))
                      ''2025-01-01T00:00:00.000Z''],
       TRANSACTIONS =
         [''TRX-1B9D6BCD'' \<mapsto>
            \<lparr>transaction_id = ''TRX-1B9D6BCD'', sender_id = ''ACC12345'',
             receiver_id = ''ACC67890'', tx_amount = tenth,
             timestamp = ''2025-01-01T00:00:00.000Z'', status = ''COMPLETED''\<rparr>]\<rparr>"
  have "\<not> js_lt (Fin (3298314981002445 / 2199023255552)) tenth"
    by (simp add: tenth_def)
  with tenth_positive
  have second: "executeTransfer ?st1 (fst tenth_second) (snd tenth_second) =
     (\<lparr>http_status = 201,
       json = Success ''TRX-7C9E6679'' (Fin (1649047539338445 / 1099511627776))
                ''2025-01-01T00:00:01.000Z''\<rparr>,
      \<lparr>ACCOUNTS = (ACCOUNTS ?st1)
         (''ACC12345'' \<mapsto> Fin (1649047539338445 / 1099511627776),
          ''ACC67890'' \<mapsto> Fin (2199902864854221 / 4398046511104)),
       PROCESSED_KEYS = (PROCESSED_KEYS ?st1)
         (''K2'' \<mapsto> Success ''TRX-7C9E6679'' (Fin (1649047539338445 / 1099511627776))
                      ''2025-01-01T00:00:01.000Z''),
       TRANSACTIONS = (TRANSACTIONS ?st1)
         (''TRX-7C9E6679'' \<mapsto>
            \<lparr>transaction_id = ''TRX-7C9E6679'', sender_id = ''ACC12345'',
             receiver_id = ''ACC67890'', tx_amount = tenth,
             timestamp = ''2025-01-01T00:00:01.000Z'', status = ''COMPLETED''\<rparr>)\<rparr>)"
    using executeTransfer_commit [where st = ?st1 and key = "''K2''" and s = "''ACC12345''"
        and r = "''ACC67890''" and n = tenth
        and bs = "Fin (3298314981002445 / 2199023255552)"
        and br = "Fin (4398926120406221 / 8796093022208)"
        and rq = "snd tenth_second" and ev = "fst tenth_second"]
    by (simp add: tenth_second_def seed_def transfer_def reads_def
        get_processed_def object_prototype_def upper_7c9e6679 tenth_sub_again tenth_add_again)
  show ?thesis
    by (simp add: tenth_first_run second pair_sum_def balance_num_def
        sum_after_first sum_after_second del: js_add.simps)
qed

section \<open>The sign of the balances\<close>

lemma js_sub_not_negative:
  assumes "\<not> js_lt b (Fin 0)" and "\<not> js_lt b n"
  shows "\<not> js_lt (js_sub b n) (Fin 0)"
proof (cases b)
  case (Fin x)
  with assms show ?thesis
    by (cases n) (simp_all add: round64_nonneg)
qed (use assms in \<open>cases n; simp\<close>)+

lemma js_add_not_negative:
  assumes "\<not> js_lt b (Fin 0)" and "\<not> js_le n (Fin 0)"
  shows "\<not> js_lt (js_add b n) (Fin 0)"
proof (cases b)
  case (Fin x)
  with assms show ?thesis
    by (cases n) (simp_all add: round64_nonneg)
qed (use assms in \<open>cases n; simp\<close>)+

lemma executeTransfer_never_negative:
  assumes "never_negative st"
  shows "never_negative (snd (executeTransfer st ev rq))"
proof (cases "http_status (fst (executeTransfer st ev rq)) = 201")
  case False
  then have "ACCOUNTS (snd (executeTransfer st ev rq)) = ACCOUNTS st"
    by (rule not_201_accounts_unchanged)
  with assms show ?thesis
    by (simp add: never_negative_def)
next
  case True
  then obtain key s r n bs br where
    "idempotency_key rq = Some key" "key \<noteq> []" "get_processed (PROCESSED_KEYS st) key = None"
    "sender_account_id rq = Some s" "receiver_account_id rq = Some r" "s \<noteq> []" "r \<noteq> []"
    "amount rq = JNum n" "\<not> js_le n (Fin 0)" "ACCOUNTS st s = Some bs" "ACCOUNTS st r = Some br"
    "s \<noteq> r" "\<not> js_lt bs n"
    by (auto simp: executeTransfer_def balance_num_def split: option.splits jsval.splits if_splits)
  then have "ACCOUNTS (snd (executeTransfer st ev rq)) =
      (ACCOUNTS st)(s \<mapsto> js_sub bs n, r \<mapsto> js_add br n)"
    by (simp add: executeTransfer_commit)
  moreover have "\<not> js_lt bs (Fin 0)" and "\<not> js_lt br (Fin 0)"
    using assms \<open>ACCOUNTS st s = Some bs\<close> \<open>ACCOUNTS st r = Some br\<close>
    by (simp_all add: never_negative_def)
  ultimately show ?thesis
    using assms \<open>\<not> js_lt bs n\<close> \<open>\<not> js_le n (Fin 0)\<close>
    by (simp add: never_negative_def js_sub_not_negative js_add_not_negative)
qed

lemma run_never_negative: "never_negative st \<Longrightarrow> never_negative (run st cs)"
  by (induction cs arbitrary: st) (simp_all add: executeTransfer_never_negative)

text \<open>
  In every state reached from the seed by a sequence of calls, whatever the calls carry,
  no balance is below zero: line 45 lets only amounts through that are not at most zero,
  line 64 only amounts the sender's balance is not below, and the Number value of a
  difference or sum that is not negative is not negative.
\<close>

lemma balances_never_negative:
  "ACCOUNTS (run seed cs) a = Some b \<Longrightarrow> \<not> js_lt b (Fin 0)"
proof -
  have "never_negative seed"
    by (simp add: never_negative_def seed_def)
  then have "never_negative (run seed cs)"
    by (rule run_never_negative)
  then show "ACCOUNTS (run seed cs) a = Some b \<Longrightarrow> \<not> js_lt b (Fin 0)"
    by (simp add: never_negative_def)
qed

subsection \<open>A balance that is not a number\<close>

text \<open>
  Not being below zero is weaker than being at least zero: NaN is neither below zero nor
  at least zero. A balance becomes NaN as follows. The account \<open>ACC67890\<close> is emptied. With \<open>z\<close> the balance of \<open>ACC99999\<close> and
  \<open>u\<close> the distance from \<open>z\<close> to the next number above it, three transfers of \<open>u / 4\<close> to
  \<open>ACC67890\<close> leave \<open>z\<close> as it is, since each difference rounds back to \<open>z\<close>, and one
  transfer of \<open>3 * u / 4\<close> back raises \<open>z\<close> to the next number, since the sum rounds up.
  Repeated, this carries the balance through every number from 10000 up to \<^verbatim>\<open>Infinity\<close>;
  a last transfer of the amount \<^verbatim>\<open>Infinity\<close> (line 45 admits it, and \<^verbatim>\<open>Infinity < Infinity\<close>
  is false in line 64) leaves \<^verbatim>\<open>Infinity - Infinity\<close>.
\<close>

lemma run_append: "run st (cs @ ds) = run (run st cs) ds"
  by (induction cs arbitrary: st) simp_all

lemma fresh_key_exists:
  assumes "finite (dom m)"
  shows "\<exists>key. key \<noteq> [] \<and> get_processed m key = None"
proof -
  have "finite (dom m \<union> set object_prototype \<union> {[]})"
    using assms by simp
  with infinite_UNIV_listI have "\<exists>key. key \<notin> dom m \<union> set object_prototype \<union> {[]}"
    by (rule ex_new_if_finite)
  then obtain key where "key \<notin> dom m \<union> set object_prototype \<union> {[]}" ..
  then have "m key = None" and "key \<notin> set object_prototype" and "key \<noteq> []"
    by blast+
  then have "key \<noteq> [] \<and> get_processed m key = None"
    by (simp add: get_processed_fresh)
  then show ?thesis ..
qed

lemma transfer_exists:
  assumes "finite (dom (PROCESSED_KEYS st))"
    and "ACCOUNTS st s = Some bs" and "ACCOUNTS st r = Some br"
    and "s \<noteq> r" and "s \<noteq> []" and "r \<noteq> []"
    and "\<not> js_le n (Fin 0)" and "\<not> js_lt bs n"
  shows "\<exists>c. ACCOUNTS (run st [c]) = (ACCOUNTS st)(s \<mapsto> js_sub bs n, r \<mapsto> js_add br n)
    \<and> finite (dom (PROCESSED_KEYS (run st [c])))"
proof -
  from assms(1) obtain key where key: "key \<noteq> []" "get_processed (PROCESSED_KEYS st) key = None"
    using fresh_key_exists by blast
  define rq where "rq = transfer key s r (JNum n)"
  define ev where "ev = reads [] []"
  have rq: "idempotency_key rq = Some key" "sender_account_id rq = Some s"
    "receiver_account_id rq = Some r" "amount rq = JNum n"
    by (simp_all add: rq_def transfer_def)
  have "executeTransfer st ev rq =
     (\<lparr>http_status = 201,
       json = Success (''TRX-'' @ toUpperCase (first_segment (uuid ev))) (js_sub bs n) (now ev)\<rparr>,
      \<lparr>ACCOUNTS = (ACCOUNTS st)(s \<mapsto> js_sub bs n, r \<mapsto> js_add br n),
       PROCESSED_KEYS = (PROCESSED_KEYS st)
         (key \<mapsto> Success (''TRX-'' @ toUpperCase (first_segment (uuid ev))) (js_sub bs n) (now ev)),
       TRANSACTIONS = (TRANSACTIONS st)
         (''TRX-'' @ toUpperCase (first_segment (uuid ev)) \<mapsto>
            \<lparr>transaction_id = ''TRX-'' @ toUpperCase (first_segment (uuid ev)),
             sender_id = s, receiver_id = r, tx_amount = n, timestamp = now ev,
             status = ''COMPLETED''\<rparr>)\<rparr>)"
    using rq(1) key rq(2,3) assms(5,6) rq(4) assms(7) assms(2,3,4,8)
    by (rule executeTransfer_commit)
  with assms(1) have "ACCOUNTS (run st [(ev, rq)]) =
      (ACCOUNTS st)(s \<mapsto> js_sub bs n, r \<mapsto> js_add br n)
    \<and> finite (dom (PROCESSED_KEYS (run st [(ev, rq)])))"
    by simp
  then show ?thesis ..
qed

lemma pump_down:
  assumes "pump_state st z y" and "\<not> js_le n (Fin 0)" and "\<not> js_lt z n"
  shows "\<exists>c. pump_state (run st [c]) (js_sub z n) (js_add y n)"
proof -
  from assms(1) have f: "finite (dom (PROCESSED_KEYS st))"
    and z: "ACCOUNTS st ''ACC99999'' = Some z" and y: "ACCOUNTS st ''ACC67890'' = Some y"
    by (simp_all add: pump_state_def)
  have "\<exists>c. ACCOUNTS (run st [c]) =
      (ACCOUNTS st)(''ACC99999'' \<mapsto> js_sub z n, ''ACC67890'' \<mapsto> js_add y n)
    \<and> finite (dom (PROCESSED_KEYS (run st [c])))"
    using f z y _ _ _ assms(2,3) by (rule transfer_exists) simp_all
  then obtain c where
    "ACCOUNTS (run st [c]) = (ACCOUNTS st)(''ACC99999'' \<mapsto> js_sub z n, ''ACC67890'' \<mapsto> js_add y n)"
    and "finite (dom (PROCESSED_KEYS (run st [c])))"
    by blast
  then have "pump_state (run st [c]) (js_sub z n) (js_add y n)"
    by (simp add: pump_state_def)
  then show ?thesis ..
qed

lemma pump_up:
  assumes "pump_state st z y" and "\<not> js_le n (Fin 0)" and "\<not> js_lt y n"
  shows "\<exists>c. pump_state (run st [c]) (js_add z n) (js_sub y n)"
proof -
  from assms(1) have f: "finite (dom (PROCESSED_KEYS st))"
    and z: "ACCOUNTS st ''ACC99999'' = Some z" and y: "ACCOUNTS st ''ACC67890'' = Some y"
    by (simp_all add: pump_state_def)
  have "\<exists>c. ACCOUNTS (run st [c]) =
      (ACCOUNTS st)(''ACC67890'' \<mapsto> js_sub y n, ''ACC99999'' \<mapsto> js_add z n)
    \<and> finite (dom (PROCESSED_KEYS (run st [c])))"
    using f y z _ _ _ assms(2,3) by (rule transfer_exists) simp_all
  then obtain c where
    "ACCOUNTS (run st [c]) = (ACCOUNTS st)(''ACC67890'' \<mapsto> js_sub y n, ''ACC99999'' \<mapsto> js_add z n)"
    and "finite (dom (PROCESSED_KEYS (run st [c])))"
    by blast
  then have "pump_state (run st [c]) (js_add z n) (js_sub y n)"
    by (simp add: pump_state_def)
  then show ?thesis ..
qed

lemma pump_cycle:
  assumes "2 ^ 52 \<le> m" and "m < 2 ^ 53" and "13 \<le> e" and "e \<le> 1023"
    and "pump_state st (Fin (of_int m * pow2 (e - 52))) (Fin 0)"
  shows "\<exists>cs. pump_state (run st cs)
    (if e = 1023 \<and> m + 1 = 2 ^ 53 then PInf else Fin (of_int (m + 1) * pow2 (e - 52))) (Fin 0)"
proof -
  define w where "w = pow2 (e - 54)"
  define z where "z = of_int m * pow2 (e - 52)"
  have "0 < w"
    unfolding w_def by (rule pow2_pos)
  have "(1::rat) \<le> of_int m"
    using assms(1) by simp
  with \<open>0 < w\<close> have "w \<le> z"
    by (simp add: z_def w_def pow2_quarter [of e] mult_le_cancel_right1)
  have e: "- 1021 \<le> e" "- 968 \<le> e" "- 1022 \<le> e"
    using assms(3) by simp_all
  have zsame: "js_sub (Fin z) (Fin w) = Fin z"
    using round64_back [OF assms(1,2) e(1) assms(4)] by (simp add: z_def w_def)
  have up: "js_add (Fin z) (Fin (3 * w)) =
      (if e = 1023 \<and> m + 1 = 2 ^ 53 then PInf else Fin (of_int (m + 1) * pow2 (e - 52)))"
    using round64_up [OF assms(1,2) e(3) assms(4)] by (simp only: js_add.simps z_def w_def)
  have y1: "js_add (Fin 0) (Fin w) = Fin w"
    using round64_amounts(1) [OF e(2) assms(4)] by (simp add: w_def)
  have y2: "js_add (Fin w) (Fin w) = Fin (2 * w)"
    using round64_amounts(2) [OF e(2) assms(4)] by (simp only: js_add.simps w_def)
  have y3: "js_add (Fin (2 * w)) (Fin w) = Fin (3 * w)"
    using round64_amounts(3) [OF e(2) assms(4)] by (simp only: js_add.simps w_def)
  have y4: "js_sub (Fin (3 * w)) (Fin (3 * w)) = Fin 0"
    by (simp add: round64_zero)
  have small: "\<not> js_le (Fin w) (Fin 0)" "\<not> js_lt (Fin z) (Fin w)"
    using \<open>0 < w\<close> \<open>w \<le> z\<close> by simp_all
  have large: "\<not> js_le (Fin (3 * w)) (Fin 0)" "\<not> js_lt (Fin (3 * w)) (Fin (3 * w))"
    using \<open>0 < w\<close> by simp_all
  from assms(5) have "pump_state st (Fin z) (Fin 0)"
    by (simp only: z_def)
  from pump_down [OF this small] obtain c1 where "pump_state (run st [c1]) (Fin z) (Fin w)"
    unfolding zsame y1 by blast
  from pump_down [OF this small] obtain c2
    where "pump_state (run (run st [c1]) [c2]) (Fin z) (Fin (2 * w))"
    unfolding zsame y2 by blast
  from pump_down [OF this small] obtain c3
    where "pump_state (run (run (run st [c1]) [c2]) [c3]) (Fin z) (Fin (3 * w))"
    unfolding zsame y3 by blast
  from pump_up [OF this large] obtain c4
    where "pump_state (run (run (run (run st [c1]) [c2]) [c3]) [c4])
      (if e = 1023 \<and> m + 1 = 2 ^ 53 then PInf else Fin (of_int (m + 1) * pow2 (e - 52))) (Fin 0)"
    unfolding up y4 by blast
  then have "pump_state (run st [c1, c2, c3, c4])
      (if e = 1023 \<and> m + 1 = 2 ^ 53 then PInf else Fin (of_int (m + 1) * pow2 (e - 52))) (Fin 0)"
    by simp
  then show ?thesis ..
qed

lemma pump_to_infinity:
  assumes "2 ^ 52 \<le> m" and "m < 2 ^ 53" and "13 \<le> e" and "e \<le> 1023"
    and "pump_state st (Fin (of_int m * pow2 (e - 52))) (Fin 0)"
  shows "\<exists>cs. pump_state (run st cs) PInf (Fin 0)"
  using assms
proof (induction "nat ((1023 - e) * 2 ^ 53 + (2 ^ 53 - m))" arbitrary: m e st rule: less_induct)
  case less
  from pump_cycle [OF less.prems] obtain cs where cs: "pump_state (run st cs)
    (if e = 1023 \<and> m + 1 = 2 ^ 53 then PInf else Fin (of_int (m + 1) * pow2 (e - 52))) (Fin 0)"
    by blast
  consider (top) "e = 1023" "m + 1 = 2 ^ 53" | (succ) "m + 1 < 2 ^ 53"
    | (binade) "e < 1023" "m + 1 = 2 ^ 53"
    using less.prems(2,4) by fastforce
  then show ?case
  proof cases
    case top
    with cs have "pump_state (run st cs) PInf (Fin 0)"
      by simp
    then show ?thesis ..
  next
    case succ
    with cs have st': "pump_state (run st cs) (Fin (of_int (m + 1) * pow2 (e - 52))) (Fin 0)"
      by simp
    have "nat ((1023 - e) * 2 ^ 53 + (2 ^ 53 - (m + 1))) < nat ((1023 - e) * 2 ^ 53 + (2 ^ 53 - m))"
      using less.prems(2,4) by simp
    moreover have "2 ^ 52 \<le> m + 1"
      using less.prems(1) by simp
    ultimately obtain ds where "pump_state (run (run st cs) ds) PInf (Fin 0)"
      using less.hyps [of e "m + 1" "run st cs"] succ less.prems(3,4) st' by blast
    then have "pump_state (run st (cs @ ds)) PInf (Fin 0)"
      by (simp add: run_append)
    then show ?thesis ..
  next
    case binade
    have "pow2 (e + 1 - 52) = pow2 (1 + (e - 52))"
      by (rule arg_cong) simp
    then have "pow2 (e + 1 - 52) = 2 * pow2 (e - 52)"
      by (simp only: pow2_add) (simp add: pow2_def)
    moreover have "(of_int (m + 1) :: rat) = 2 * of_int (2 ^ 52)"
      by (simp add: binade(2))
    ultimately have eq: "of_int (m + 1) * pow2 (e - 52) = of_int (2 ^ 52) * pow2 (e + 1 - 52)"
      by (simp only: mult.assoc mult.left_commute)
    from cs binade(1)
    have "pump_state (run st cs) (Fin (of_int (m + 1) * pow2 (e - 52))) (Fin 0)"
      by simp
    then have st': "pump_state (run st cs) (Fin (of_int (2 ^ 52) * pow2 (e + 1 - 52))) (Fin 0)"
      by (simp only: eq)
    have "nat ((1023 - (e + 1)) * 2 ^ 53 + (2 ^ 53 - 2 ^ 52)) < nat ((1023 - e) * 2 ^ 53 + (2 ^ 53 - m))"
      using less.prems(2) binade by simp
    moreover have "(2::int) ^ 52 \<le> 2 ^ 52" and "(2::int) ^ 52 < 2 ^ 53" and "13 \<le> e + 1" and "e + 1 \<le> 1023"
      using less.prems(3) binade(1) by simp_all
    ultimately obtain ds where "pump_state (run (run st cs) ds) PInf (Fin 0)"
      using less.hyps [of "e + 1" "2 ^ 52" "run st cs"] st' by blast
    then have "pump_state (run st (cs @ ds)) PInf (Fin 0)"
      by (simp add: run_append)
    then show ?thesis ..
  qed
qed

lemma seed_emptied:
  "\<exists>c. pump_state (run seed [c]) (Fin 10000) (Fin 0)"
proof -
  have "finite (dom (PROCESSED_KEYS seed))"
    by (simp add: seed_def)
  moreover have "ACCOUNTS seed ''ACC67890'' = Some (Fin 500)"
    and "ACCOUNTS seed ''ACC12345'' = Some (Fin 1500)"
    by (simp_all add: seed_def)
  moreover have "''ACC67890'' \<noteq> ''ACC12345''" and "''ACC67890'' \<noteq> []" and "''ACC12345'' \<noteq> []"
    and "\<not> js_le (Fin 500) (Fin 0)" and "\<not> js_lt (Fin 500) (Fin 500)"
    by simp_all
  ultimately have "\<exists>c. ACCOUNTS (run seed [c]) =
      (ACCOUNTS seed)(''ACC67890'' \<mapsto> js_sub (Fin 500) (Fin 500),
                      ''ACC12345'' \<mapsto> js_add (Fin 1500) (Fin 500))
    \<and> finite (dom (PROCESSED_KEYS (run seed [c])))"
    by (rule transfer_exists)
  then obtain c0 where "ACCOUNTS (run seed [c0]) =
      (ACCOUNTS seed)(''ACC67890'' \<mapsto> js_sub (Fin 500) (Fin 500),
                      ''ACC12345'' \<mapsto> js_add (Fin 1500) (Fin 500))"
    and "finite (dom (PROCESSED_KEYS (run seed [c0])))"
    by blast
  moreover have "ACCOUNTS seed ''ACC99999'' = Some (Fin 10000)"
    by (simp add: seed_def)
  ultimately have "pump_state (run seed [c0]) (Fin 10000) (Fin 0)"
    unfolding pump_state_def by (simp add: round64_zero del: run.simps)
  then show ?thesis by (rule exI [where x = c0])
qed

lemma infinity_to_nan:
  assumes "pump_state st PInf (Fin 0)"
  shows "\<exists>c. ACCOUNTS (run st [c]) ''ACC99999'' = Some NaN"
proof -
  have inf: "\<not> js_le PInf (Fin 0)" "\<not> js_lt PInf PInf"
    by simp_all
  from pump_down [OF assms inf]
  obtain c where "pump_state (run st [c]) (js_sub PInf PInf) (js_add (Fin 0) PInf)" ..
  then have "ACCOUNTS (run st [c]) ''ACC99999'' = Some (js_sub PInf PInf)"
    unfolding pump_state_def by (rule conjunct1)
  then have "ACCOUNTS (run st [c]) ''ACC99999'' = Some NaN"
    by simp
  then show ?thesis by (rule exI [where x = c])
qed

lemma ten_thousand: "(10000::rat) = of_int 5497558138880000 * pow2 (13 - 52)"
  by (simp add: pow2_def)

text \<open>Some sequence of calls from the seed leaves a balance NaN.\<close>

lemma balance_becomes_nan:
  "\<exists>cs. ACCOUNTS (run seed cs) ''ACC99999'' = Some NaN \<and> \<not> js_le (Fin 0) NaN"
proof -
  obtain c0 where "pump_state (run seed [c0]) (Fin 10000) (Fin 0)"
    using seed_emptied by blast
  then have "pump_state (run seed [c0]) (Fin (of_int 5497558138880000 * pow2 (13 - 52))) (Fin 0)"
    by (simp only: ten_thousand)
  moreover have "(2::int) ^ 52 \<le> 5497558138880000" and "(5497558138880000::int) < 2 ^ 53"
    and "(13::int) \<le> 13" and "(13::int) \<le> 1023"
    by simp_all
  ultimately have "\<exists>cs. pump_state (run (run seed [c0]) cs) PInf (Fin 0)"
    using pump_to_infinity [of 5497558138880000 13 "run seed [c0]"] by blast
  then obtain cs where "pump_state (run (run seed [c0]) cs) PInf (Fin 0)"
    by blast
  then have "\<exists>c. ACCOUNTS (run (run (run seed [c0]) cs) [c]) ''ACC99999'' = Some NaN"
    by (rule infinity_to_nan)
  then obtain c where "ACCOUNTS (run (run (run seed [c0]) cs) [c]) ''ACC99999'' = Some NaN"
    by blast
  then have "ACCOUNTS (run seed ([c0] @ cs @ [c])) ''ACC99999'' = Some NaN"
    by (simp only: run_append)
  then have "ACCOUNTS (run seed ([c0] @ cs @ [c])) ''ACC99999'' = Some NaN \<and> \<not> js_le (Fin 0) NaN"
    by simp
  then show ?thesis by (rule exI [where x = "[c0] @ cs @ [c]"])
qed

end
